theory Spec2Isabelle
  imports Complex_Main
begin

section \<open>ts-stick: on-screen controls as state machines over pointer events\<close>

text \<open>
  The four controllers of ts-stick (\<^verbatim>\<open>Button.ts\<close>, \<^verbatim>\<open>Dpad.ts\<close>, \<^verbatim>\<open>Joystick.ts\<close>,
  \<^verbatim>\<open>RetractableSlider.ts\<close>) are classes with mutable fields whose methods are bound
  to DOM events. Each class is a record of the fields its handlers read or write, each
  handler is a function from the state before the event to the state after it, and
  every invocation of a user callback is appended to a trace kept in the state.

  The handlers compute in IEEE 754 double precision, and the model does too: every
  \<^verbatim>\<open>+\<close>, \<^verbatim>\<open>-\<close>, \<^verbatim>\<open>*\<close> and \<^verbatim>\<open>/\<close> of the source is the exact operation followed by rounding
  to the nearest double, with overflow to an infinity and \<^verbatim>\<open>NaN\<close> where JavaScript
  gives them. What comes from outside (pointer coordinates, rectangles, options) is a
  finite number, held as a \<^typ>\<open>real\<close>. The sign of a zero is not modelled; the
  handlers can observe it only through \<^verbatim>\<open>Math.atan2\<close> at a zero displacement, and a zero
  divisor is taken to be \<open>+0\<close>, which is what the rectangles and subtractions of the
  source produce.

  A read through \<^verbatim>\<open>this.baseRect!\<close> while the rectangle is still \<^verbatim>\<open>undefined\<close> throws
  in the source and is the value \<open>Inl TypeError\<close> here. CSS strings, colours and
  console output are not modelled, except the opacity and the thumb position.
\<close>

subsection \<open>Numbers\<close>

datatype number = Num real | PosInf | NegInf | NaN

text \<open>
  Rounding to the nearest double, ties to the even significand: 53 bits of
  significand above the exponent of the value, the fixed step \<open>2 ^ -1074\<close> below the
  normal range, and an infinity from \<open>2 ^ 1024\<close> on.
\<close>

definition round_even :: "real \<Rightarrow> int" where
  "round_even y =
     (let f = \<lfloor>y\<rfloor>
      in if y - real_of_int f < 1 / 2 then f
         else if 1 / 2 < y - real_of_int f then f + 1
         else if even f then f else f + 1)"

definition quantum :: "real \<Rightarrow> real" where
  "quantum x = 2 powr (real_of_int (max \<lfloor>log 2 \<bar>x\<bar>\<rfloor> (- 1022)) - 52)"

definition fl :: "real \<Rightarrow> number" where
  "fl x =
     (if x = 0 then Num 0
      else let r = quantum x * real_of_int (round_even (x / quantum x))
           in if 2 ^ 1024 \<le> \<bar>r\<bar> then (if 0 < x then PosInf else NegInf) else Num r)"

fun jneg :: "number \<Rightarrow> number" where
  "jneg (Num a) = Num (- a)"
| "jneg PosInf = NegInf"
| "jneg NegInf = PosInf"
| "jneg NaN = NaN"

fun jadd :: "number \<Rightarrow> number \<Rightarrow> number" where
  "jadd (Num a) (Num b) = fl (a + b)"
| "jadd NaN b = NaN"
| "jadd a NaN = NaN"
| "jadd PosInf NegInf = NaN"
| "jadd NegInf PosInf = NaN"
| "jadd PosInf b = PosInf"
| "jadd a PosInf = PosInf"
| "jadd NegInf b = NegInf"
| "jadd a NegInf = NegInf"

definition jsub :: "number \<Rightarrow> number \<Rightarrow> number" where
  "jsub a b = jadd a (jneg b)"

fun jmul :: "number \<Rightarrow> number \<Rightarrow> number" where
  "jmul (Num a) (Num b) = fl (a * b)"
| "jmul NaN b = NaN"
| "jmul a NaN = NaN"
| "jmul (Num a) PosInf = (if a = 0 then NaN else if 0 < a then PosInf else NegInf)"
| "jmul (Num a) NegInf = (if a = 0 then NaN else if 0 < a then NegInf else PosInf)"
| "jmul PosInf (Num b) = (if b = 0 then NaN else if 0 < b then PosInf else NegInf)"
| "jmul NegInf (Num b) = (if b = 0 then NaN else if 0 < b then NegInf else PosInf)"
| "jmul PosInf PosInf = PosInf"
| "jmul NegInf NegInf = PosInf"
| "jmul PosInf NegInf = NegInf"
| "jmul NegInf PosInf = NegInf"

fun jdiv :: "number \<Rightarrow> number \<Rightarrow> number" where
  "jdiv (Num a) (Num b) =
     (if b = 0 then (if a = 0 then NaN else if 0 < a then PosInf else NegInf)
      else fl (a / b))"
| "jdiv NaN b = NaN"
| "jdiv a NaN = NaN"
| "jdiv (Num a) PosInf = Num 0"
| "jdiv (Num a) NegInf = Num 0"
| "jdiv PosInf (Num b) = (if 0 \<le> b then PosInf else NegInf)"
| "jdiv NegInf (Num b) = (if 0 \<le> b then NegInf else PosInf)"
| "jdiv PosInf b = NaN"
| "jdiv NegInf b = NaN"

text \<open>Comparisons are exact; every comparison with \<^verbatim>\<open>NaN\<close> is false.\<close>

fun jlt :: "number \<Rightarrow> number \<Rightarrow> bool" where
  "jlt (Num a) (Num b) = (a < b)"
| "jlt NaN b = False"
| "jlt a NaN = False"
| "jlt a NegInf = False"
| "jlt NegInf b = True"
| "jlt PosInf b = False"
| "jlt a PosInf = True"

fun jle :: "number \<Rightarrow> number \<Rightarrow> bool" where
  "jle (Num a) (Num b) = (a \<le> b)"
| "jle NaN b = False"
| "jle a NaN = False"
| "jle NegInf b = True"
| "jle a PosInf = True"
| "jle a b = False"

definition jgt :: "number \<Rightarrow> number \<Rightarrow> bool" where
  "jgt a b = jlt b a"

text \<open>\<^verbatim>\<open>a !== b\<close> on numbers: \<^verbatim>\<open>NaN\<close> differs from everything, itself included.\<close>

definition jne :: "number \<Rightarrow> number \<Rightarrow> bool" where
  "jne a b = (a = NaN \<or> b = NaN \<or> a \<noteq> b)"

definition Math_min :: "number \<Rightarrow> number \<Rightarrow> number" where
  "Math_min a b = (if a = NaN \<or> b = NaN then NaN else if jlt b a then b else a)"

definition Math_max :: "number \<Rightarrow> number \<Rightarrow> number" where
  "Math_max a b = (if a = NaN \<or> b = NaN then NaN else if jlt a b then b else a)"

text \<open>\<^verbatim>\<open>Math.round\<close>: the nearest integer, a tie going up; it is exact on a double.\<close>

fun Math_round :: "number \<Rightarrow> number" where
  "Math_round (Num v) = Num (real_of_int \<lfloor>v + 1 / 2\<rfloor>)"
| "Math_round a = a"

text \<open>
  \<^verbatim>\<open>Number(v.toFixed(2))\<close>. \<^verbatim>\<open>toFixed\<close> works on the absolute value of the double and
  takes the larger candidate on a tie, so a tie goes away from zero; from \<open>10 ^ 21\<close> on
  it prints the number itself. \<^verbatim>\<open>Number\<close> reads the decimal back as the nearest double.
\<close>

fun toFixed2 :: "number \<Rightarrow> number" where
  "toFixed2 (Num v) =
     (if 10 ^ 21 \<le> \<bar>v\<bar> then Num v
      else fl (if v < 0 then - (real_of_int \<lfloor>(- v) * 100 + 1 / 2\<rfloor> / 100)
               else real_of_int \<lfloor>v * 100 + 1 / 2\<rfloor> / 100))"
| "toFixed2 a = a"

text \<open>\<^verbatim>\<open>Math.PI\<close>, the double nearest to \<open>\<pi>\<close>: 3.141592653589793.\<close>

definition Math_PI :: real where
  "Math_PI = 884279719003555 / 2 ^ 48"

subsection \<open>The library functions\<close>

text \<open>
  ECMAScript leaves the accuracy of \<^verbatim>\<open>Math.sqrt\<close>, \<^verbatim>\<open>Math.hypot\<close>, \<^verbatim>\<open>Math.cos\<close>,
  \<^verbatim>\<open>Math.sin\<close> and \<^verbatim>\<open>Math.atan2\<close> to the implementation. The handlers that call them
  take the library as a parameter, and the general theorems hold for every library.
\<close>

record Math =
  Math_sqrt :: "number \<Rightarrow> number"
  Math_hypot :: "number \<Rightarrow> number \<Rightarrow> number"
  Math_cos :: "number \<Rightarrow> number"
  Math_sin :: "number \<Rightarrow> number"
  Math_atan2 :: "number \<Rightarrow> number \<Rightarrow> number"

text \<open>
  The correctly rounded library: each function is the exact one followed by rounding,
  with the special values ECMAScript prescribes. The closed examples below run on it.
\<close>

definition atan2 :: "real \<Rightarrow> real \<Rightarrow> real" where
  "atan2 y x =
     (if 0 < x then arctan (y / x)
      else if x < 0 \<and> 0 \<le> y then arctan (y / x) + pi
      else if x < 0 then arctan (y / x) - pi
      else if 0 < y then pi / 2
      else if y < 0 then - (pi / 2)
      else 0)"

fun libm_sqrt :: "number \<Rightarrow> number" where
  "libm_sqrt (Num x) = (if x < 0 then NaN else fl (sqrt x))"
| "libm_sqrt PosInf = PosInf"
| "libm_sqrt a = NaN"

fun libm_hypot :: "number \<Rightarrow> number \<Rightarrow> number" where
  "libm_hypot (Num x) (Num y) = fl (sqrt (x\<^sup>2 + y\<^sup>2))"
| "libm_hypot PosInf b = PosInf"
| "libm_hypot NegInf b = PosInf"
| "libm_hypot a PosInf = PosInf"
| "libm_hypot a NegInf = PosInf"
| "libm_hypot a b = NaN"

fun libm_cos :: "number \<Rightarrow> number" where
  "libm_cos (Num x) = fl (cos x)"
| "libm_cos a = NaN"

fun libm_sin :: "number \<Rightarrow> number" where
  "libm_sin (Num x) = fl (sin x)"
| "libm_sin a = NaN"

fun libm_atan2 :: "number \<Rightarrow> number \<Rightarrow> number" where
  "libm_atan2 (Num y) (Num x) = fl (atan2 y x)"
| "libm_atan2 NaN b = NaN"
| "libm_atan2 a NaN = NaN"
| "libm_atan2 (Num y) PosInf = Num 0"
| "libm_atan2 (Num y) NegInf = (if 0 \<le> y then fl pi else fl (- pi))"
| "libm_atan2 PosInf (Num x) = fl (pi / 2)"
| "libm_atan2 NegInf (Num x) = fl (- (pi / 2))"
| "libm_atan2 PosInf PosInf = fl (pi / 4)"
| "libm_atan2 PosInf NegInf = fl (3 * pi / 4)"
| "libm_atan2 NegInf PosInf = fl (- (pi / 4))"
| "libm_atan2 NegInf NegInf = fl (- (3 * pi / 4))"

definition libm :: Math where
  "libm =
     \<lparr> Math_sqrt = libm_sqrt, Math_hypot = libm_hypot, Math_cos = libm_cos,
       Math_sin = libm_sin, Math_atan2 = libm_atan2 \<rparr>"

subsection \<open>Events, rectangles, callbacks\<close>

datatype error = TypeError

record DOMRect =
  rect_left :: real
  rect_top :: real
  rect_width :: real
  rect_height :: real

text \<open>
  What the handlers read of a \<^verbatim>\<open>PointerEvent\<close>. A \<^verbatim>\<open>Touch\<close> is the same record with
  its \<^verbatim>\<open>identifier\<close> in \<open>pointerId\<close>: \<^verbatim>\<open>onDpadDown\<close> casts a touch to a pointer event.
\<close>

record PointerEvent =
  pointerId :: int
  clientX :: real
  clientY :: real

datatype event =
  Pointer PointerEvent
  | Touch (touches: "PointerEvent list") (changedTouches: "PointerEvent list")

text \<open>
  The layout the browser would report at the moment of an event: the result of
  \<^verbatim>\<open>base.getBoundingClientRect()\<close> and \<^verbatim>\<open>baseThumb.offsetWidth\<close>. Every handler gets
  it; only the ones that call \<^verbatim>\<open>updateContainerRectangle\<close> look at it.
\<close>

record layout =
  boundingClientRect :: DOMRect
  thumbOffsetWidth :: real

text \<open>
  A callback field holds either the function the user passed in the options or the
  default arrow function the constructor builds (which only logs).
\<close>

datatype 'f callback = Supplied 'f | DefaultLogger

fun orDefault :: "'f option \<Rightarrow> 'f callback" where
  "orDefault (Some f) = Supplied f"
| "orDefault None = DefaultLogger"

text \<open>\<^verbatim>\<open>n || d\<close> on an optional finite number: \<^verbatim>\<open>undefined\<close> and \<^verbatim>\<open>0\<close> are falsy.\<close>

fun numberOr :: "real option \<Rightarrow> real \<Rightarrow> real" where
  "numberOr None d = d"
| "numberOr (Some n) d = (if n = 0 then d else n)"

fun boolOr :: "bool option \<Rightarrow> bool \<Rightarrow> bool" where
  "boolOr None d = d"
| "boolOr (Some b) d = (b \<or> d)"

subsection \<open>ButtonController\<close>

datatype button_call = ButtonPress | ButtonRelease

record 'f ButtonOptions =
  rotate_BO :: "real option"
  radius_BO :: "real option"
  onPressCallback_BO :: "'f option"
  onReleaseCallback_BO :: "'f option"

record 'f ButtonController =
  rotate_B :: real
  radius_B :: real
  onPressCallback_B :: "'f callback"
  onReleaseCallback_B :: "'f callback"
  isPressed_B :: bool
  opacity_B :: string
  calls_B :: "('f callback \<times> button_call) list"

text \<open>
  The fields set by the constructor and by \<^verbatim>\<open>render\<close> (opacity 0.6). The container
  defaults to \<^verbatim>\<open>document.body\<close>, so the check in \<^verbatim>\<open>init\<close> passes.
\<close>

definition ButtonController :: "'f ButtonOptions \<Rightarrow> 'f ButtonController" where
  "ButtonController options =
     \<lparr> rotate_B = numberOr (rotate_BO options) 0,
       radius_B = numberOr (radius_BO options) 5,
       onPressCallback_B = orDefault (onPressCallback_BO options),
       onReleaseCallback_B = orDefault (onReleaseCallback_BO options),
       isPressed_B = False,
       opacity_B = ''0.6'',
       calls_B = [] \<rparr>"

definition onButtonUp :: "'f ButtonController \<Rightarrow> 'f ButtonController" where
  "onButtonUp s =
     (if \<not> isPressed_B s then s
      else s\<lparr> isPressed_B := False,
              opacity_B := ''0.6'',
              calls_B := calls_B s @ [(onReleaseCallback_B s, ButtonRelease)] \<rparr>)"

definition onButtonDown :: "'f ButtonController \<Rightarrow> 'f ButtonController" where
  "onButtonDown s =
     (if isPressed_B s then s
      else s\<lparr> isPressed_B := True,
              opacity_B := ''0.8'',
              calls_B := calls_B s @ [(onPressCallback_B s, ButtonPress)] \<rparr>)"

text \<open>
  \<^verbatim>\<open>init\<close> registers its listeners on \<^verbatim>\<open>this.container\<close>, and \<^verbatim>\<open>render\<close> appends the
  button's \<^verbatim>\<open>base\<close> element to that container. The listener table is the list of
  \<^verbatim>\<open>addEventListener\<close> calls in source order.
\<close>

datatype element = Container | Base

datatype button_handler = OnButtonUp | OnButtonDown | PreventDefault

definition button_listeners :: "(element \<times> string \<times> button_handler) list" where
  "button_listeners =
     [ (Container, ''pointerup'', OnButtonUp),
       (Container, ''pointerdown'', OnButtonDown),
       (Container, ''touchstart'', PreventDefault),
       (Container, ''touchmove'', PreventDefault),
       (Container, ''touchend'', PreventDefault),
       (Container, ''touchcancel'', PreventDefault),
       (Container, ''selectstart'', PreventDefault),
       (Container, ''contextmenu'', PreventDefault) ]"

fun run_button_handler :: "button_handler \<Rightarrow> 'f ButtonController \<Rightarrow> 'f ButtonController" where
  "run_button_handler OnButtonUp s = onButtonUp s"
| "run_button_handler OnButtonDown s = onButtonDown s"
| "run_button_handler PreventDefault s = s"

text \<open>
  Where a pointer event lands, and the elements it reaches while it bubbles (the DOM's
  dispatch, with nobody stopping propagation): an event on the button's element reaches
  the element and then the container, an event elsewhere in the container reaches the
  container only, an event outside reaches neither.
\<close>

datatype hit = HitBase | HitContainerOnly | HitOutside

fun propagation_path :: "hit \<Rightarrow> element list" where
  "propagation_path HitBase = [Base, Container]"
| "propagation_path HitContainerOnly = [Container]"
| "propagation_path HitOutside = []"

definition dispatch_B :: "hit \<Rightarrow> string \<Rightarrow> 'f ButtonController \<Rightarrow> 'f ButtonController" where
  "dispatch_B h ty s =
     fold (\<lambda>(el, ty', f). if el \<in> set (propagation_path h) \<and> ty' = ty
                           then run_button_handler f else id)
          button_listeners s"

subsection \<open>Geometry shared by the d-pad and the joystick\<close>

text \<open>
  The pointer's position relative to the centre of a rectangle; the d-pad and the
  joystick both start a move with it (\<^verbatim>\<open>baseCenterX\<close>, \<^verbatim>\<open>baseCenterY\<close>, \<^verbatim>\<open>x\<close>, \<^verbatim>\<open>y\<close>).
\<close>

definition pointerOffset :: "DOMRect \<Rightarrow> PointerEvent \<Rightarrow> number \<times> number" where
  "pointerOffset r e =
     (let baseCenterX = jadd (Num (rect_left r)) (jdiv (Num (rect_width r)) (Num 2));
          baseCenterY = jadd (Num (rect_top r)) (jdiv (Num (rect_height r)) (Num 2))
      in (jsub (Num (clientX e)) baseCenterX, jsub (Num (clientY e)) baseCenterY))"

text \<open>
  The reverse rotation both controls apply to the displacement:
  \<^verbatim>\<open>angle = (-rotate * Math.PI) / 180\<close>, then the rotation matrix.
\<close>

definition rotateBack :: "Math \<Rightarrow> real \<Rightarrow> number \<times> number \<Rightarrow> number \<times> number" where
  "rotateBack M degrees p =
     (let x = fst p; y = snd p;
          angle = jdiv (jmul (Num (- degrees)) (Num Math_PI)) (Num 180)
      in (jsub (jmul x (Math_cos M angle)) (jmul y (Math_sin M angle)),
          jadd (jmul x (Math_sin M angle)) (jmul y (Math_cos M angle))))"

subsection \<open>DpadController\<close>

datatype direction =
  DCenter | DUp | DDown | DLeft | DRight | DUpRight | DDownRight | DUpLeft | DDownLeft

datatype dpad_call = OnPress direction | OnRelease direction

record 'f DpadOptions =
  radius_DO :: "real option"
  centerRadiusThreshold_DO :: "real option"
  onPressCallback_DO :: "'f option"
  onReleaseCallback_DO :: "'f option"
  keyRepeat_DO :: "bool option"
  rotate_DO :: "real option"

record 'f DpadController =
  radius_D :: real
  centerThreshold_D :: real
  onPressCallback_D :: "'f callback"
  onReleaseCallback_D :: "'f callback"
  currentDirection_D :: direction
  pointerId_D :: int
  baseRect_D :: "DOMRect option"
  inputRegisterDistance_D :: number
  isPressed_D :: bool
  keyRepeat_D :: bool
  rotate_D :: real
  opacity_D :: string
  calls_D :: "('f callback \<times> dpad_call) list"

text \<open>
  The constructor. \<^verbatim>\<open>onPressCallback\<close> is \<^verbatim>\<open>options.onPressCallback || (logger)\<close>;
  \<^verbatim>\<open>onReleaseCallback\<close> is assigned the logging arrow function and nothing else.
\<close>

definition DpadController :: "'f DpadOptions \<Rightarrow> 'f DpadController" where
  "DpadController options =
     \<lparr> radius_D = numberOr (radius_DO options) 5,
       centerThreshold_D =
         (case centerRadiusThreshold_DO options of None \<Rightarrow> 0.25 | Some t \<Rightarrow> t),
       onPressCallback_D = orDefault (onPressCallback_DO options),
       onReleaseCallback_D = DefaultLogger,
       currentDirection_D = DCenter,
       pointerId_D = - 1,
       baseRect_D = None,
       inputRegisterDistance_D = Num 0,
       isPressed_D = False,
       keyRepeat_D = boolOr (keyRepeat_DO options) False,
       rotate_D = numberOr (rotate_DO options) 0,
       opacity_D = ''0.5'',
       calls_D = [] \<rparr>"

definition updateContainerRectangle_D :: "layout \<Rightarrow> 'f DpadController \<Rightarrow> 'f DpadController" where
  "updateContainerRectangle_D lay s =
     (let r = boundingClientRect lay
      in s\<lparr> baseRect_D := Some r,
              inputRegisterDistance_D :=
                jmul (jdiv (Num (min (rect_width r) (rect_height r))) (Num 2))
                     (Num (centerThreshold_D s)) \<rparr>)"

definition resetDpad :: "'f DpadController \<Rightarrow> 'f DpadController" where
  "resetDpad s = s\<lparr> opacity_D := ''0.5'' \<rparr>"

text \<open>The chain of sector tests of \<^verbatim>\<open>onDpadMove\<close>, in source order.\<close>

definition findDirection :: "number \<Rightarrow> number \<Rightarrow> number \<Rightarrow> direction" where
  "findDirection angle centerDistance inputRegisterDistance =
     (if jgt centerDistance inputRegisterDistance then
        (if jgt angle (Num (- 22.5)) \<and> jle angle (Num 22.5) then DRight
         else if jgt angle (Num 22.5) \<and> jle angle (Num 67.5) then DUpRight
         else if jgt angle (Num 67.5) \<and> jle angle (Num 112.5) then DUp
         else if jgt angle (Num 112.5) \<and> jle angle (Num 157.5) then DUpLeft
         else if jgt angle (Num 157.5) \<or> jle angle (Num (- 157.5)) then DLeft
         else if jgt angle (Num (- 157.5)) \<and> jle angle (Num (- 112.5)) then DDownLeft
         else if jgt angle (Num (- 112.5)) \<and> jle angle (Num (- 67.5)) then DDown
         else if jgt angle (Num (- 67.5)) \<and> jle angle (Num (- 22.5)) then DDownRight
         else DCenter)
      else DCenter)"

text \<open>
  The displacement of the pointer from the centre of the cached rectangle, after the
  reverse rotation; then the angle in degrees and the distance, as \<^verbatim>\<open>onDpadMove\<close>
  computes them.
\<close>

definition dpadDisplacement ::
  "Math \<Rightarrow> 'f DpadController \<Rightarrow> DOMRect \<Rightarrow> PointerEvent \<Rightarrow> number \<times> number" where
  "dpadDisplacement M s r e =
     (let p = pointerOffset r e
      in if rotate_D s \<noteq> 0 then rotateBack M (rotate_D s) p else p)"

definition dpadAngle :: "Math \<Rightarrow> number \<times> number \<Rightarrow> number" where
  "dpadAngle M p = jdiv (jmul (Math_atan2 M (jneg (snd p)) (fst p)) (Num 180)) (Num Math_PI)"

definition dpadCenterDistance :: "Math \<Rightarrow> number \<times> number \<Rightarrow> number" where
  "dpadCenterDistance M p = Math_sqrt M (jadd (jmul (fst p) (fst p)) (jmul (snd p) (snd p)))"

definition onDpadMove ::
  "Math \<Rightarrow> layout \<Rightarrow> PointerEvent \<Rightarrow> 'f DpadController \<Rightarrow> error + 'f DpadController" where
  "onDpadMove M lay e s =
     (if \<not> isPressed_D s then Inr s
      else case baseRect_D s of
        None \<Rightarrow> Inl TypeError
      | Some r \<Rightarrow>
          (let p = dpadDisplacement M s r e;
               angle = dpadAngle M p;
               centerDistance = dpadCenterDistance M p;
               direction = findDirection angle centerDistance (inputRegisterDistance_D s)
           in if currentDirection_D s \<noteq> direction
              then Inr (s\<lparr> currentDirection_D := direction,
                           calls_D := calls_D s @ [(onPressCallback_D s, OnPress direction)] \<rparr>)
              else Inr s))"

definition onDpadDown ::
  "Math \<Rightarrow> layout \<Rightarrow> event \<Rightarrow> 'f DpadController \<Rightarrow> error + 'f DpadController" where
  "onDpadDown M lay ev s =
     (case ev of
        Pointer e \<Rightarrow>
          onDpadMove M lay e
            (updateContainerRectangle_D lay
               (s\<lparr> isPressed_D := True, pointerId_D := pointerId e \<rparr>))
      | Touch ts cs \<Rightarrow>
          (case ts of
             [] \<Rightarrow> Inr s
           | t # _ \<Rightarrow>
               onDpadMove M lay t
                 (updateContainerRectangle_D lay
                    (s\<lparr> isPressed_D := True, pointerId_D := pointerId t \<rparr>))))"

definition onDpadUp :: "layout \<Rightarrow> event \<Rightarrow> 'f DpadController \<Rightarrow> 'f DpadController" where
  "onDpadUp lay ev s =
     (let s1 =
        (case ev of
           Pointer e \<Rightarrow>
             if pointerId e = pointerId_D s
             then resetDpad (s\<lparr> isPressed_D := False, pointerId_D := - 1 \<rparr>)
             else s
         | Touch ts cs \<Rightarrow>
             if length cs > 0 then resetDpad (s\<lparr> pointerId_D := - 1 \<rparr>) else s)
      in if currentDirection_D s1 \<noteq> DCenter
         then s1\<lparr> currentDirection_D := DCenter,
                  calls_D := calls_D s1 @ [(onReleaseCallback_D s1, OnRelease DCenter)] \<rparr>
         else s1)"

subsection \<open>JoysickController\<close>

datatype thumb_transform = TranslateCenter | TranslateOffset number number

record 'f JoysickControllerOptions =
  rotate_JO :: "real option"
  radius_JO :: "real option"
  onInputCallback_JO :: "'f option"

record 'f JoysickController =
  rotate_J :: real
  radius_J :: real
  onInputCallback_J :: "'f callback"
  isPressed_J :: bool
  baseRect_J :: "DOMRect option"
  thumbMaxDistance_J :: number
  thumbTransform_J :: thumb_transform
  opacity_J :: string
  calls_J :: "('f callback \<times> number \<times> number) list"

definition updateContainerRectangle_J :: "layout \<Rightarrow> 'f JoysickController \<Rightarrow> 'f JoysickController" where
  "updateContainerRectangle_J lay s =
     s\<lparr> baseRect_J := Some (boundingClientRect lay),
        thumbMaxDistance_J :=
          jdiv (jsub (Num (radius_J s)) (Num (thumbOffsetWidth lay))) (Num 1.5) \<rparr>"

text \<open>
  The constructor followed by \<^verbatim>\<open>init\<close>: \<^verbatim>\<open>render\<close> sets opacity 0.7 and centres the
  thumb, and \<^verbatim>\<open>init\<close> ends with a first \<^verbatim>\<open>updateContainerRectangle\<close>.
\<close>

definition JoysickController :: "layout \<Rightarrow> 'f JoysickControllerOptions \<Rightarrow> 'f JoysickController" where
  "JoysickController lay options =
     updateContainerRectangle_J lay
       \<lparr> rotate_J = numberOr (rotate_JO options) 0,
         radius_J = numberOr (radius_JO options) 5,
         onInputCallback_J = orDefault (onInputCallback_JO options),
         isPressed_J = False,
         baseRect_J = None,
         thumbMaxDistance_J = Num 0,
         thumbTransform_J = TranslateCenter,
         opacity_J = ''0.7'',
         calls_J = [] \<rparr>"

definition onJoysickUp :: "layout \<Rightarrow> PointerEvent \<Rightarrow> 'f JoysickController \<Rightarrow> 'f JoysickController" where
  "onJoysickUp lay e s =
     s\<lparr> isPressed_J := False, thumbTransform_J := TranslateCenter, opacity_J := ''0.7'' \<rparr>"

text \<open>
  The displacement of the pointer from the centre of the cached rectangle, scaled
  back onto the disc of radius \<^verbatim>\<open>thumbMaxDistance\<close> when it lies outside, then rotated
  back: the pair the thumb is moved by.
\<close>

definition joystickThumbOffset ::
  "Math \<Rightarrow> 'f JoysickController \<Rightarrow> DOMRect \<Rightarrow> PointerEvent \<Rightarrow> number \<times> number" where
  "joystickThumbOffset M s r e =
     (let x = fst (pointerOffset r e);
          y = snd (pointerOffset r e);
          distance = Math_hypot M x y;
          p = (if jgt distance (thumbMaxDistance_J s)
               then (jmul x (jdiv (thumbMaxDistance_J s) distance),
                     jmul y (jdiv (thumbMaxDistance_J s) distance))
               else (x, y))
      in if rotate_J s \<noteq> 0 then rotateBack M (rotate_J s) p else p)"

definition normalizeAxis :: "number \<Rightarrow> number \<Rightarrow> number" where
  "normalizeAxis thumbMaxDistance d =
     toFixed2 (Math_max (Num (- 1)) (Math_min (Num 1) (jdiv d thumbMaxDistance)))"

definition onJoysickMove ::
  "Math \<Rightarrow> layout \<Rightarrow> PointerEvent \<Rightarrow> 'f JoysickController \<Rightarrow> error + 'f JoysickController" where
  "onJoysickMove M lay e s =
     (if \<not> isPressed_J s then Inr s
      else case baseRect_J s of
        None \<Rightarrow> Inl TypeError
      | Some r \<Rightarrow>
          (let p = joystickThumbOffset M s r e;
               x = normalizeAxis (thumbMaxDistance_J s) (fst p);
               y = normalizeAxis (thumbMaxDistance_J s) (snd p)
           in Inr (s\<lparr> thumbTransform_J := TranslateOffset (fst p) (snd p),
                        calls_J := calls_J s @ [(onInputCallback_J s, x, y)] \<rparr>)))"

definition onJoysickDown ::
  "Math \<Rightarrow> layout \<Rightarrow> PointerEvent \<Rightarrow> 'f JoysickController \<Rightarrow> error + 'f JoysickController" where
  "onJoysickDown M lay e s =
     onJoysickMove M lay e
       (updateContainerRectangle_J lay (s\<lparr> isPressed_J := True, opacity_J := ''1'' \<rparr>))"

text \<open>
  The listeners \<^verbatim>\<open>init\<close> registers on the joystick's base element, and the one on
  \<^verbatim>\<open>window\<close>, in source order.
\<close>

datatype joystick_handler = OnJoysickUp | OnJoysickDown | OnJoysickMove | UpdateContainerRectangle

definition joystick_listeners :: "(string \<times> joystick_handler) list" where
  "joystick_listeners =
     [ (''pointerup'', OnJoysickUp),
       (''pointercancel'', OnJoysickUp),
       (''pointerdown'', OnJoysickDown),
       (''pointermove'', OnJoysickMove),
       (''resize'', UpdateContainerRectangle) ]"

fun run_joystick_handler ::
  "joystick_handler \<Rightarrow> Math \<Rightarrow> layout \<Rightarrow> PointerEvent \<Rightarrow> 'f JoysickController
     \<Rightarrow> error + 'f JoysickController" where
  "run_joystick_handler OnJoysickUp M lay e s = Inr (onJoysickUp lay e s)"
| "run_joystick_handler OnJoysickDown M lay e s = onJoysickDown M lay e s"
| "run_joystick_handler OnJoysickMove M lay e s = onJoysickMove M lay e s"
| "run_joystick_handler UpdateContainerRectangle M lay e s = Inr (updateContainerRectangle_J lay s)"

definition dispatch_J ::
  "string \<Rightarrow> Math \<Rightarrow> layout \<Rightarrow> PointerEvent \<Rightarrow> 'f JoysickController
     \<Rightarrow> error + 'f JoysickController" where
  "dispatch_J ty M lay e s =
     (case map_of joystick_listeners ty of
        None \<Rightarrow> Inr s
      | Some h \<Rightarrow> run_joystick_handler h M lay e s)"

subsection \<open>RetrackableSlider\<close>

datatype slider_direction = Vertical | Horizontal

datatype slider_call = OnSlide number | OnSliderRelease

record 'f RetrackableSliderOptions =
  direction_SO :: "slider_direction option"
  onSlideCallback_SO :: "'f option"
  onReleaseCallback_SO :: "'f option"

text \<open>
  The two callback fields are declared optional in the class, and the handlers test
  them before the call; the constructor always fills them.
\<close>

record 'f RetrackableSlider =
  direction_S :: slider_direction
  onSlideCallback_S :: "'f callback option"
  onReleaseCallback_S :: "'f callback option"
  baseRect_S :: "DOMRect option"
  isPressed_S :: bool
  valuePercent_S :: number
  shownPercent_S :: number
  calls_S :: "('f callback \<times> slider_call) list"

definition RetrackableSlider :: "'f RetrackableSliderOptions \<Rightarrow> 'f RetrackableSlider" where
  "RetrackableSlider options =
     \<lparr> direction_S = (case direction_SO options of None \<Rightarrow> Vertical | Some d \<Rightarrow> d),
       onSlideCallback_S = Some (orDefault (onSlideCallback_SO options)),
       onReleaseCallback_S = Some (orDefault (onReleaseCallback_SO options)),
       baseRect_S = None,
       isPressed_S = False,
       valuePercent_S = Num 0,
       shownPercent_S = Num 0,
       calls_S = [] \<rparr>"

definition updateUI :: "'f RetrackableSlider \<Rightarrow> 'f RetrackableSlider" where
  "updateUI s = s\<lparr> shownPercent_S := valuePercent_S s \<rparr>"

definition updateContainerRectangle_S :: "layout \<Rightarrow> 'f RetrackableSlider \<Rightarrow> 'f RetrackableSlider" where
  "updateContainerRectangle_S lay s = s\<lparr> baseRect_S := Some (boundingClientRect lay) \<rparr>"

definition invoke_S :: "'f callback option \<Rightarrow> slider_call \<Rightarrow> 'f RetrackableSlider \<Rightarrow> 'f RetrackableSlider" where
  "invoke_S cb c s = (case cb of None \<Rightarrow> s | Some f \<Rightarrow> s\<lparr> calls_S := calls_S s @ [(f, c)] \<rparr>)"

definition onSliderUp :: "layout \<Rightarrow> PointerEvent \<Rightarrow> 'f RetrackableSlider \<Rightarrow> 'f RetrackableSlider" where
  "onSliderUp lay e s =
     (let s1 = s\<lparr> isPressed_S := False \<rparr>
      in if jne (valuePercent_S s1) (Num 0)
         then invoke_S (onReleaseCallback_S s1) OnSliderRelease
                (updateUI (s1\<lparr> valuePercent_S := Num 0 \<rparr>))
         else s1)"

definition onSliderDown :: "layout \<Rightarrow> PointerEvent \<Rightarrow> 'f RetrackableSlider \<Rightarrow> 'f RetrackableSlider" where
  "onSliderDown lay e s =
     (let s1 = updateContainerRectangle_S lay (s\<lparr> isPressed_S := True \<rparr>)
      in invoke_S (onSlideCallback_S s1) (OnSlide (valuePercent_S s1)) s1)"

text \<open>
  The value \<^verbatim>\<open>onSliderMove\<close> computes from the pointer and the rectangle, before it
  is compared with the stored one.
\<close>

definition sliderValue :: "slider_direction \<Rightarrow> DOMRect \<Rightarrow> PointerEvent \<Rightarrow> number" where
  "sliderValue d r e =
     (let value =
        (if d = Vertical
         then jsub (Num 100)
                (jmul (jdiv (jsub (Num (clientY e)) (Num (rect_top r))) (Num (rect_height r)))
                      (Num 100))
         else jmul (jdiv (jsub (Num (clientX e)) (Num (rect_left r))) (Num (rect_width r)))
                   (Num 100))
      in Math_round (Math_max (Num 0) (Math_min (Num 100) value)))"

definition onSliderMove :: "layout \<Rightarrow> PointerEvent \<Rightarrow> 'f RetrackableSlider \<Rightarrow> error + 'f RetrackableSlider" where
  "onSliderMove lay e s =
     (if \<not> isPressed_S s then Inr s
      else
        (let s1 = updateContainerRectangle_S lay s
         in case baseRect_S s1 of
              None \<Rightarrow> Inl TypeError
            | Some r \<Rightarrow>
                (let value = sliderValue (direction_S s1) r e
                 in if jne (valuePercent_S s1) value
                    then Inr (invoke_S (onSlideCallback_S s1) (OnSlide value)
                                (updateUI (s1\<lparr> valuePercent_S := value \<rparr>)))
                    else Inr s1)))"

section \<open>Properties\<close>

subsection \<open>Rounding to the nearest double\<close>

text \<open>
  \<^const>\<open>fl\<close> is the identity on every number a double can hold, it is determined by
  the binade and the nearest significand otherwise, and its relative error is at most
  \<open>2\<^sup>-\<^sup>5\<^sup>3\<close> away from the subnormal range.
\<close>

lemma round_even_of_int: "round_even (real_of_int j) = j"
  by (simp add: round_even_def)

lemma round_even_close: "\<bar>real_of_int (round_even y) - y\<bar> \<le> 1 / 2"
  unfolding round_even_def Let_def by (auto; linarith)

lemma round_even_unique:
  assumes "real_of_int m - 1 / 2 < y" and "y < real_of_int m + 1 / 2"
  shows "round_even y = m"
proof -
  have "\<lfloor>y\<rfloor> = m \<or> \<lfloor>y\<rfloor> = m - 1"
    using assms by linarith
  then show ?thesis
    using assms unfolding round_even_def Let_def by (auto; linarith)
qed

lemma quantum_pos: "0 < quantum x"
  by (simp add: quantum_def)

lemma exponent_bounds:
  assumes "x \<noteq> 0"
  shows "2 powr real_of_int \<lfloor>log 2 \<bar>x\<bar>\<rfloor> \<le> \<bar>x\<bar>"
    and "\<bar>x\<bar> < 2 powr (real_of_int \<lfloor>log 2 \<bar>x\<bar>\<rfloor> + 1)"
  using floor_log_eq_powr_iff [of "\<bar>x\<bar>" 2 "\<lfloor>log 2 \<bar>x\<bar>\<rfloor>"] assms by simp_all

lemma exponent_eq:
  assumes "2 powr real_of_int e \<le> \<bar>x\<bar>" and "\<bar>x\<bar> < 2 powr (real_of_int e + 1)"
  shows "\<lfloor>log 2 \<bar>x\<bar>\<rfloor> = e"
proof -
  have "0 < \<bar>x\<bar>"
    using assms(1) powr_gt_zero [of 2 "real_of_int e"] by linarith
  then show ?thesis
    using floor_log_eq_powr_iff [of "\<bar>x\<bar>" 2 e] assms by simp
qed

lemma fl_zero: "fl 0 = Num 0"
  by (simp add: fl_def)

lemma fl_representable:
  assumes x: "x = real_of_int m * 2 powr real_of_int k"
    and m: "\<bar>m\<bar> < 2 ^ 53" and k: "- 1074 \<le> k" and range: "\<bar>x\<bar> < 2 ^ 1024"
  shows "fl x = Num x"
proof (cases "x = 0")
  case True
  then show ?thesis by (simp add: fl_def)
next
  case False
  define e where "e = \<lfloor>log 2 \<bar>x\<bar>\<rfloor>"
  define e' where "e' = max e (- 1022)"
  have lo: "2 powr real_of_int e \<le> \<bar>x\<bar>"
    unfolding e_def by (rule exponent_bounds(1) [OF False])
  have "\<bar>x\<bar> = real_of_int \<bar>m\<bar> * 2 powr real_of_int k"
    unfolding x by (simp add: abs_mult)
  also have "\<dots> < 2 ^ 53 * 2 powr real_of_int k"
  proof (rule mult_strict_right_mono)
    show "real_of_int \<bar>m\<bar> < 2 ^ 53"
      using m by (metis of_int_less_iff of_int_numeral of_int_power)
  qed simp
  also have "\<dots> = 2 powr (53 + real_of_int k)"
    by (simp add: powr_add powr_numeral)
  finally have "2 powr real_of_int e < 2 powr (53 + real_of_int k)"
    using lo by linarith
  then have "real_of_int e < 53 + real_of_int k"
    by simp
  then have "e \<le> 52 + k"
    by linarith
  then have d: "0 \<le> k - e' + 52"
    using k by (simp add: e'_def)
  define qv where "qv = quantum x"
  have q: "qv = 2 powr (real_of_int e' - 52)"
    by (simp add: qv_def quantum_def e_def e'_def)
  have "x / qv = real_of_int m * (2 powr real_of_int k / 2 powr (real_of_int e' - 52))"
    by (simp only: q x times_divide_eq_right)
  also have "2 powr real_of_int k / 2 powr (real_of_int e' - 52)
             = 2 powr (real_of_int k - (real_of_int e' - 52))"
    by (rule powr_diff [symmetric])
  also have "real_of_int k - (real_of_int e' - 52) = real (nat (k - e' + 52))"
    using d by simp
  also have "2 powr real (nat (k - e' + 52)) = real_of_int (2 ^ nat (k - e' + 52))"
    by (simp add: powr_realpow)
  finally have "x / qv = real_of_int (m * 2 ^ nat (k - e' + 52))"
    by simp
  then have "x / quantum x = real_of_int (m * 2 ^ nat (k - e' + 52))"
    by (simp only: qv_def)
  then have "real_of_int (round_even (x / quantum x)) = x / quantum x"
    by (simp only: round_even_of_int)
  then have "quantum x * real_of_int (round_even (x / quantum x)) = x"
    using quantum_pos [of x] by simp
  then show ?thesis
    using False range by (simp add: fl_def Let_def)
qed

lemma fl_of_int:
  assumes "\<bar>n\<bar> < 2 ^ 53"
  shows "fl (real_of_int n) = Num (real_of_int n)"
proof (rule fl_representable [where m = n and k = 0])
  show "real_of_int n = real_of_int n * 2 powr real_of_int 0" by simp
  show "\<bar>n\<bar> < 2 ^ 53" by (rule assms)
  show "- 1074 \<le> (0::int)" by simp
  have "real_of_int \<bar>n\<bar> < 2 ^ 53"
    using assms by (metis of_int_less_iff of_int_numeral of_int_power)
  also have "(2::real) ^ 53 < 2 ^ 1024"
    by (rule power_strict_increasing) simp_all
  finally show "\<bar>real_of_int n\<bar> < 2 ^ 1024" by simp
qed

lemma fl_dyadic:
  assumes "\<bar>n\<bar> < 2 ^ 53" and "j \<le> 1000"
  shows "fl (real_of_int n / 2 ^ j) = Num (real_of_int n / 2 ^ j)"
proof (rule fl_representable [where m = n and k = "- int j"])
  show "real_of_int n / 2 ^ j = real_of_int n * 2 powr real_of_int (- int j)"
    by (simp add: powr_minus powr_realpow divide_inverse)
  show "\<bar>n\<bar> < 2 ^ 53" by (rule assms)
  show "- 1074 \<le> - int j" using assms(2) by simp
  have "real_of_int \<bar>n\<bar> < 2 ^ 53"
    using assms(1) by (metis of_int_less_iff of_int_numeral of_int_power)
  also have "(2::real) ^ 53 < 2 ^ 1024"
    by (rule power_strict_increasing) simp_all
  finally have "\<bar>real_of_int n\<bar> < 2 ^ 1024" by simp
  moreover have "\<bar>real_of_int n / 2 ^ j\<bar> \<le> \<bar>real_of_int n\<bar>"
  proof -
    have "(1::real) \<le> 2 ^ j" by simp
    then have "\<bar>real_of_int n\<bar> * 1 \<le> \<bar>real_of_int n\<bar> * 2 ^ j"
      by (intro mult_left_mono) simp_all
    then show ?thesis
      by (simp add: abs_divide divide_le_eq)
  qed
  ultimately show "\<bar>real_of_int n / 2 ^ j\<bar> < 2 ^ 1024" by linarith
qed

lemma fl_error:
  assumes "\<bar>x\<bar> < 2 ^ 1023"
  shows "\<exists>r. fl x = Num r \<and> \<bar>r - x\<bar> \<le> \<bar>x\<bar> / 2 ^ 53 + 1 / 2 ^ 1075"
proof (cases "x = 0")
  case True
  then show ?thesis by (simp add: fl_def)
next
  case False
  define e where "e = \<lfloor>log 2 \<bar>x\<bar>\<rfloor>"
  define q where "q = quantum x"
  define r where "r = q * real_of_int (round_even (x / q))"
  have qpos: "0 < q" by (simp add: q_def quantum_pos)
  have lo: "2 powr real_of_int e \<le> \<bar>x\<bar>"
    unfolding e_def by (rule exponent_bounds(1) [OF False])
  have qle: "q \<le> \<bar>x\<bar> / 2 ^ 52 + 1 / 2 ^ 1074"
  proof (cases "- 1022 \<le> e")
    case True
    then have "max e (- 1022) = e"
      by simp
    then have "q = 2 powr (real_of_int e - 52)"
      by (simp only: q_def quantum_def e_def)
    also have "\<dots> = 2 powr real_of_int e / 2 powr 52"
      by (rule powr_diff)
    finally have "q = 2 powr real_of_int e / 2 ^ 52"
      by simp
    also have "\<dots> \<le> \<bar>x\<bar> / 2 ^ 52"
      using lo by (simp add: divide_right_mono)
    finally show ?thesis by simp
  next
    case False
    then have "max e (- 1022) = - 1022"
      by simp
    then have "q = 2 powr (real_of_int (- 1022) - 52)"
      by (simp only: q_def quantum_def e_def)
    then have "q = 2 powr (- 1074)"
      by simp
    also have "\<dots> = 1 / 2 ^ 1074"
      by (simp add: powr_minus_divide powr_numeral)
    finally show ?thesis by simp
  qed
  have "r - x = q * (real_of_int (round_even (x / q)) - x / q)"
    using qpos by (simp add: r_def algebra_simps)
  then have "\<bar>r - x\<bar> = q * \<bar>real_of_int (round_even (x / q)) - x / q\<bar>"
    using qpos by (simp add: abs_mult)
  also have "\<dots> \<le> q * (1 / 2)"
    using qpos round_even_close [of "x / q"] by (intro mult_left_mono) simp_all
  finally have err: "\<bar>r - x\<bar> \<le> q / 2" by simp
  then have close: "\<bar>r - x\<bar> \<le> \<bar>x\<bar> / 2 ^ 53 + 1 / 2 ^ 1075"
    using qle by simp
  have "\<bar>r\<bar> \<le> \<bar>x\<bar> + \<bar>x\<bar> / 2 ^ 53 + 1 / 2 ^ 1075"
    using close by linarith
  also have "\<dots> < 2 ^ 1023 + 2 ^ 1023 / 2 ^ 53 + 1 / 2 ^ 1075"
    using assms by (simp add: divide_strict_right_mono add_strict_mono)
  also have "\<dots> \<le> 2 ^ 1024"
    by simp
  finally have "\<not> 2 ^ 1024 \<le> \<bar>r\<bar>" by simp
  then have "fl x = Num r"
    using False by (simp add: fl_def Let_def r_def q_def)
  then show ?thesis using close by blast
qed

lemma fl_eval:
  assumes lo: "2 powr real_of_int e \<le> \<bar>x\<bar>" and hi: "\<bar>x\<bar> < 2 powr (real_of_int e + 1)"
    and e: "- 1022 \<le> e" "e \<le> 1022"
    and m: "real_of_int m - 1 / 2 < x / 2 powr (real_of_int e - 52)"
           "x / 2 powr (real_of_int e - 52) < real_of_int m + 1 / 2"
  shows "fl x = Num (2 powr (real_of_int e - 52) * real_of_int m)"
proof -
  define q where "q = 2 powr (real_of_int e - 52)"
  have qpos: "0 < q" by (simp add: q_def)
  have nz: "x \<noteq> 0"
    using lo powr_gt_zero [of 2 "real_of_int e"] by auto
  have ex: "\<lfloor>log 2 \<bar>x\<bar>\<rfloor> = e"
    by (rule exponent_eq [OF lo hi])
  have "max e (- 1022) = e" using e by simp
  then have qx: "quantum x = q"
    by (simp only: quantum_def ex q_def)
  have re: "round_even (x / q) = m"
    using m unfolding q_def [symmetric] by (rule round_even_unique)
  have "\<bar>x / q\<bar> < 2 powr (real_of_int e + 1) / q"
    using hi qpos by (simp add: abs_divide divide_strict_right_mono)
  also have "\<dots> = 2 powr (real_of_int e + 1 - (real_of_int e - 52))"
    unfolding q_def by (rule powr_diff [symmetric])
  also have "\<dots> = 2 ^ 53"
    by (simp add: powr_numeral)
  finally have "\<bar>x / q\<bar> < 2 ^ 53" .
  then have "\<bar>real_of_int m\<bar> < 2 ^ 53 + 1"
    using m unfolding q_def [symmetric] by linarith
  then have "\<bar>m\<bar> < 2 ^ 53 + 1"
    by (metis (mono_tags) of_int_abs of_int_less_iff of_int_numeral of_int_power of_int_add of_int_1)
  then have "\<bar>m\<bar> \<le> 2 ^ 53" by linarith
  then have mle: "\<bar>real_of_int m\<bar> \<le> 2 ^ 53"
    by (metis of_int_abs of_int_le_iff of_int_numeral of_int_power)
  have "\<bar>q * real_of_int m\<bar> = q * \<bar>real_of_int m\<bar>"
    using qpos by (simp add: abs_mult)
  also have "\<dots> \<le> q * 2 ^ 53"
    using mle qpos by (intro mult_left_mono) simp_all
  also have "\<dots> = 2 powr (real_of_int e - 52) * 2 powr 53"
    by (simp add: q_def powr_numeral)
  also have "\<dots> = 2 powr (real_of_int e - 52 + 53)"
    by (rule powr_add [symmetric])
  also have "\<dots> \<le> 2 powr 1023"
    using e by (intro powr_mono) simp_all
  also have "\<dots> < 2 ^ 1024"
    by (simp add: powr_numeral)
  finally have small: "\<not> 2 ^ 1024 \<le> \<bar>q * real_of_int m\<bar>" by simp
  have r: "quantum x * real_of_int (round_even (x / quantum x)) = q * real_of_int m"
    by (simp only: qx re)
  have "fl x = Num (q * real_of_int m)"
    unfolding fl_def Let_def r using nz small by (simp only: if_False)
  then show ?thesis
    by (simp only: q_def)
qed

lemma fl_numeral:
  assumes "(numeral w :: int) < 2 ^ 53"
  shows "fl (numeral w) = Num (numeral w)"
  using fl_of_int [of "numeral w"] assms by simp

lemma fl_neg_numeral:
  assumes "(numeral w :: int) < 2 ^ 53"
  shows "fl (- numeral w) = Num (- numeral w)"
  using fl_of_int [of "- numeral w"] assms by simp

lemma fl_one: "fl 1 = Num 1"
  using fl_of_int [of 1] by simp

lemma fl_half_numeral:
  assumes "(numeral w :: int) < 2 ^ 53"
  shows "fl (numeral w / 2) = Num (numeral w / 2)"
  using fl_dyadic [of "numeral w" 1] assms by simp

lemma fl_quarter_numeral:
  assumes "(numeral w :: int) < 2 ^ 53"
  shows "fl (numeral w / 4) = Num (numeral w / 4)"
  using fl_dyadic [of "numeral w" 2] assms by simp


lemma fl_finite:
  assumes "\<bar>x\<bar> \<le> b" and "b < 2 ^ 1022"
  shows "\<exists>r. fl x = Num r \<and> \<bar>r\<bar> \<le> 2 * b + 1"
proof -
  have "\<bar>x\<bar> < 2 ^ 1023"
    using assms by simp
  then obtain r where r: "fl x = Num r" "\<bar>r - x\<bar> \<le> \<bar>x\<bar> / 2 ^ 53 + 1 / 2 ^ 1075"
    using fl_error by blast
  have "\<bar>x\<bar> / 2 ^ 53 \<le> \<bar>x\<bar>"
    by (simp add: field_simps)
  moreover have "(1::real) / 2 ^ 1075 \<le> 1"
    by simp
  ultimately have "\<bar>r\<bar> \<le> 2 * b + 1"
    using r(2) assms(1) by linarith
  then show ?thesis
    using r(1) by blast
qed

text \<open>
  Error bounds below are linear inequalities between terms such as \<open>t / 2 ^ 50\<close>; the
  powers are evaluated and the divisions kept in place for the linear arithmetic.
\<close>

lemmas keep_divide = le_divide_eq_numeral1 divide_le_eq_numeral1 less_divide_eq_numeral1
  divide_less_eq_numeral1

lemma fl_scaled:
  assumes x: "\<bar>x\<bar> \<le> 4 * t" and t: "1 / 2 ^ 100 \<le> t" "t \<le> 2 ^ 102"
  shows "\<exists>r. fl x = Num r \<and> \<bar>r - x\<bar> \<le> t / 2 ^ 50"
proof -
  have "\<bar>x\<bar> \<le> 4 * 2 ^ 102"
    using x t(2) by linarith
  also have "\<dots> < (2::real) ^ 1023"
    by simp
  finally have "\<bar>x\<bar> < 2 ^ 1023" .
  then obtain r where r: "fl x = Num r" "\<bar>r - x\<bar> \<le> \<bar>x\<bar> / 2 ^ 53 + 1 / 2 ^ 1075"
    using fl_error by blast
  have "\<bar>r - x\<bar> \<le> t / 2 ^ 50"
    using r(2) x t(1) by simp
  then show ?thesis
    using r(1) by blast
qed

subsection \<open>Operations on numbers\<close>

lemma jneg_not_NaN: "a \<noteq> NaN \<Longrightarrow> jneg a \<noteq> NaN"
  by (cases a) simp_all


lemma jle_not_jgt: "jle a b \<Longrightarrow> \<not> jgt a b"
  unfolding jgt_def by (cases a; cases b) simp_all

text \<open>Clamping: \<^verbatim>\<open>Math.max(lo, Math.min(hi, w))\<close> is \<^verbatim>\<open>NaN\<close> or lies between the bounds.\<close>

lemma clamp_cases:
  assumes "lo \<le> hi"
  shows "Math_max (Num lo) (Math_min (Num hi) w)
         = (case w of Num a \<Rightarrow> Num (max lo (min hi a)) | PosInf \<Rightarrow> Num hi
            | NegInf \<Rightarrow> Num lo | NaN \<Rightarrow> NaN)"
  using assms by (cases w) (auto simp add: Math_max_def Math_min_def)

lemma Math_PI_pos: "0 < Math_PI"
  by (simp add: Math_PI_def)

lemma Math_PI_nonzero: "Math_PI \<noteq> 0"
  using Math_PI_pos by simp

lemma atan2_zero_pos: "0 < x \<Longrightarrow> atan2 0 x = 0"
  by (simp add: atan2_def)

lemma atan2_bound: "\<bar>atan2 y x\<bar> \<le> 6"
proof -
  have "- 2 < arctan (y / x)" "arctan (y / x) < 2"
    using arctan_lbound [of "y / x"] arctan_ubound [of "y / x"] pi_less_4 by linarith+
  then show ?thesis
    using pi_less_4 unfolding atan2_def
    by (auto simp add: abs_le_iff) (insert pi_gt_zero, linarith)+
qed

lemma sqrt_25: "sqrt 25 = 5"
  using real_sqrt_abs [of 5] by simp

lemma sqrt_1600: "sqrt 1600 = 40"
  using real_sqrt_abs [of 40] by simp

lemma sqrt_40000: "sqrt 40000 = 200"
  using real_sqrt_abs [of 200] by simp

subsection \<open>Sines, cosines and arc tangents at the arguments used below\<close>

text \<open>
  Bounds from the Maclaurin polynomial of the sine, which need no approximation of
  \<open>\<pi>\<close>: \<open>\<pi>\<close> is above 3, the arc tangent of 0.19 is below \<open>\<pi> / 16\<close>, and the double
  nearest to \<open>\<pi> / 2\<close> has a sine within \<open>10\<^sup>-\<^sup>6\<close> of 1 and a cosine below 0.002.
\<close>

lemma sum_upto_6:
  fixes f :: "nat \<Rightarrow> real"
  shows "(\<Sum>m<6. f m) = f 0 + f 1 + f 2 + f 3 + f 4 + f 5"
  by (simp add: eval_nat_numeral lessThan_Suc)

lemma sum_upto_12:
  fixes f :: "nat \<Rightarrow> real"
  shows "(\<Sum>m<12. f m) = f 0 + f 1 + f 2 + f 3 + f 4 + f 5 + f 6 + f 7 + f 8 + f 9 + f 10 + f 11"
  by (simp add: eval_nat_numeral lessThan_Suc)

lemma sin_coeff_values:
  "sin_coeff 0 = 0" "sin_coeff 1 = 1" "sin_coeff 2 = 0" "sin_coeff 3 = - 1 / 6"
  "sin_coeff 4 = 0" "sin_coeff 5 = 1 / 120" "sin_coeff 6 = 0" "sin_coeff 7 = - 1 / 5040"
  "sin_coeff 8 = 0" "sin_coeff 9 = 1 / 362880" "sin_coeff 10 = 0"
  "sin_coeff 11 = - 1 / 39916800"
  by (simp_all add: sin_coeff_def fact_numeral)

lemma cos_3_2_pos: "0 < cos (3 / 2 :: real)"
proof -
  define x :: real where "x = 3 / 4"
  have "\<bar>sin x - (\<Sum>m<6. sin_coeff m * x ^ m)\<bar> \<le> inverse (fact 6) * \<bar>x\<bar> ^ 6"
    by (rule Maclaurin_sin_bound)
  moreover have "(\<Sum>m<6. sin_coeff m * x ^ m) = x - x ^ 3 / 6 + x ^ 5 / 120"
    unfolding sum_upto_6 sin_coeff_values by simp
  moreover have "x - x ^ 3 / 6 + x ^ 5 / 120 + inverse (fact 6) * \<bar>x\<bar> ^ 6 \<le> 7 / 10"
    unfolding x_def by (simp add: fact_numeral power_divide)
  ultimately have s: "sin x \<le> 7 / 10"
    by linarith
  have "0 \<le> sin x"
    using sin_gt_zero_02 [of x] by (simp add: x_def)
  then have "(sin x)\<^sup>2 \<le> (7 / 10)\<^sup>2"
    using s by (intro power_mono) simp_all
  moreover have "cos (2 * x) = 1 - 2 * (sin x)\<^sup>2"
    by (rule cos_double_sin)
  ultimately have "0 < cos (2 * x)"
    by (simp add: power2_eq_square)
  then show ?thesis
    by (simp add: x_def)
qed

lemma pi_gt_3: "3 < pi"
proof (rule ccontr)
  assume "\<not> 3 < pi"
  then have "pi / 2 \<le> 3 / 2"
    by simp
  moreover have "3 / 2 \<le> pi"
    using pi_ge_two by linarith
  ultimately have "cos (3 / 2) \<le> cos (pi / 2)"
    by (intro cos_monotone_0_pi_le) simp_all
  then show False
    using cos_3_2_pos by simp
qed

lemma arctan_19_100: "arctan (19 / 100) < pi / 16"
proof -
  have "2 * arctan (19 / 100) = arctan (2 * (19 / 100) / (1 - (19 / 100)\<^sup>2))"
    by (rule arctan_double) simp
  also have "\<dots> = arctan (3800 / 9639)"
    by (simp add: power2_eq_square)
  finally have a: "2 * arctan (19 / 100) = arctan (3800 / 9639)" .
  have "2 * arctan (3800 / 9639) = arctan (2 * (3800 / 9639) / (1 - (3800 / 9639)\<^sup>2))"
    by (rule arctan_double) simp
  also have "\<dots> < arctan 1"
    unfolding arctan_less_iff by (simp add: power2_eq_square)
  finally have "2 * arctan (3800 / 9639) < pi / 4"
    by (simp add: arctan_one)
  then show ?thesis
    using a by linarith
qed

lemma sin_half_pi_double:
  "1 - 1 / 10 ^ 6 \<le> sin (884279719003555 / 562949953421312 :: real)"
proof -
  define B :: real where "B = 884279719003555 / 562949953421312"
  have "\<bar>sin B - (\<Sum>m<12. sin_coeff m * B ^ m)\<bar> \<le> inverse (fact 12) * \<bar>B\<bar> ^ 12"
    by (rule Maclaurin_sin_bound)
  moreover have "(\<Sum>m<12. sin_coeff m * B ^ m)
                 = B - B ^ 3 / 6 + B ^ 5 / 120 - B ^ 7 / 5040 + B ^ 9 / 362880 - B ^ 11 / 39916800"
    unfolding sum_upto_12 sin_coeff_values by simp
  moreover have "1 - 1 / 10 ^ 6 + inverse (fact 12) * \<bar>B\<bar> ^ 12
                 \<le> B - B ^ 3 / 6 + B ^ 5 / 120 - B ^ 7 / 5040 + B ^ 9 / 362880 - B ^ 11 / 39916800"
    unfolding B_def by (simp add: fact_numeral power_divide)
  ultimately show ?thesis
    unfolding B_def by linarith
qed

lemma cos_half_pi_double:
  "\<bar>cos (884279719003555 / 562949953421312 :: real)\<bar> \<le> 1 / 500"
proof -
  define B :: real where "B = 884279719003555 / 562949953421312"
  have s: "1 - 1 / 10 ^ 6 \<le> sin B"
    unfolding B_def by (rule sin_half_pi_double)
  have "(1 - 1 / 10 ^ 6)\<^sup>2 \<le> (sin B)\<^sup>2"
    using s by (intro power_mono) simp_all
  moreover have "(cos B)\<^sup>2 = 1 - (sin B)\<^sup>2"
    using sin_cos_squared_add [of B] by linarith
  ultimately have "(cos B)\<^sup>2 \<le> (1 / 500)\<^sup>2"
    by (simp add: power2_eq_square)
  then have "\<bar>cos B\<bar> \<le> \<bar>1 / 500 :: real\<bar>"
    by (simp only: abs_le_square_iff)
  then show ?thesis
    unfolding B_def by simp
qed

subsection \<open>ButtonController\<close>

lemma onButtonDown_twice: "onButtonDown (onButtonDown s) = onButtonDown s"
  by (simp add: onButtonDown_def)

lemma onButtonUp_twice: "onButtonUp (onButtonUp s) = onButtonUp s"
  by (simp add: onButtonUp_def)

text \<open>
  C9, as amended. Pressing is idempotent from any state: the second of two consecutive
  presses changes nothing and fires nothing, and the button is pressed afterwards. The
  two presses together fire \<^verbatim>\<open>onPress\<close> exactly once when the button was released
  before them, and not at all when it was already pressed. A release of a released
  button changes nothing and fires nothing.
\<close>

theorem button_press_idempotent:
  "onButtonDown (onButtonDown s) = onButtonDown s
   \<and> isPressed_B (onButtonDown s)
   \<and> calls_B (onButtonDown (onButtonDown s)) =
       (if isPressed_B s then calls_B s
        else calls_B s @ [(onPressCallback_B s, ButtonPress)])
   \<and> (\<not> isPressed_B s \<longrightarrow> onButtonUp s = s)"
  by (simp add: onButtonDown_def onButtonUp_def)

theorem button_press_idempotent_witness:
  "calls_B (onButtonDown (onButtonDown (ButtonController
      \<lparr> rotate_BO = None, radius_BO = None,
        onPressCallback_BO = Some (1::nat), onReleaseCallback_BO = None \<rparr>)))
    = [(Supplied 1, ButtonPress)]
   \<and> \<not> isPressed_B (ButtonController
      \<lparr> rotate_BO = None, radius_BO = None,
        onPressCallback_BO = Some (1::nat), onReleaseCallback_BO = None \<rparr>)
   \<and> onButtonUp (ButtonController
      \<lparr> rotate_BO = None, radius_BO = None,
        onPressCallback_BO = Some (1::nat), onReleaseCallback_BO = None \<rparr>)
     = ButtonController
      \<lparr> rotate_BO = None, radius_BO = None,
        onPressCallback_BO = Some (1::nat), onReleaseCallback_BO = None \<rparr>"
  using button_press_idempotent [of "ButtonController
      \<lparr> rotate_BO = None, radius_BO = None,
        onPressCallback_BO = Some (1::nat), onReleaseCallback_BO = None \<rparr>"]
  by (simp add: ButtonController_def onButtonDown_def onButtonUp_def)

text \<open>
  C9 as stated fails from a pressed state: after one press of a fresh button, two more
  presses fire \<^verbatim>\<open>onPress\<close> zero times, not once.
\<close>

theorem button_press_twice_counterexample:
  "isPressed_B (onButtonDown (ButtonController
      \<lparr> rotate_BO = None, radius_BO = None,
        onPressCallback_BO = Some (1::nat), onReleaseCallback_BO = None \<rparr>))
   \<and> calls_B (onButtonDown (onButtonDown (onButtonDown (ButtonController
      \<lparr> rotate_BO = None, radius_BO = None,
        onPressCallback_BO = Some (1::nat), onReleaseCallback_BO = None \<rparr>))))
     = calls_B (onButtonDown (ButtonController
      \<lparr> rotate_BO = None, radius_BO = None,
        onPressCallback_BO = Some (1::nat), onReleaseCallback_BO = None \<rparr>))
   \<and> calls_B (onButtonDown (onButtonDown (onButtonDown (ButtonController
      \<lparr> rotate_BO = None, radius_BO = None,
        onPressCallback_BO = Some (1::nat), onReleaseCallback_BO = None \<rparr>))))
     \<noteq> calls_B (onButtonDown (ButtonController
      \<lparr> rotate_BO = None, radius_BO = None,
        onPressCallback_BO = Some (1::nat), onReleaseCallback_BO = None \<rparr>))
       @ [(Supplied 1, ButtonPress)]"
  by (simp add: onButtonDown_def ButtonController_def)

text \<open>
  C10. The \<^verbatim>\<open>pointerdown\<close> listener sits on the container, so a pointer-down that
  lands on the button's element or anywhere else inside the container runs
  \<^verbatim>\<open>onButtonDown\<close>: a released button becomes pressed and \<^verbatim>\<open>onPress\<close> is fired once.
\<close>

theorem button_press_anywhere_in_container:
  assumes "\<not> isPressed_B s" and "h = HitBase \<or> h = HitContainerOnly"
  shows "dispatch_B h ''pointerdown'' s = onButtonDown s
         \<and> isPressed_B (dispatch_B h ''pointerdown'' s)
         \<and> calls_B (dispatch_B h ''pointerdown'' s)
             = calls_B s @ [(onPressCallback_B s, ButtonPress)]"
  using assms by (auto simp add: dispatch_B_def button_listeners_def onButtonDown_def)

theorem button_press_anywhere_in_container_witness:
  "\<not> isPressed_B (ButtonController
      \<lparr> rotate_BO = None, radius_BO = None,
        onPressCallback_BO = Some (1::nat), onReleaseCallback_BO = None \<rparr>)
   \<and> isPressed_B (dispatch_B HitContainerOnly ''pointerdown'' (ButtonController
      \<lparr> rotate_BO = None, radius_BO = None,
        onPressCallback_BO = Some (1::nat), onReleaseCallback_BO = None \<rparr>))
   \<and> calls_B (dispatch_B HitContainerOnly ''pointerdown'' (ButtonController
      \<lparr> rotate_BO = None, radius_BO = None,
        onPressCallback_BO = Some (1::nat), onReleaseCallback_BO = None \<rparr>))
      = [(Supplied 1, ButtonPress)]"
  using button_press_anywhere_in_container [of "ButtonController
      \<lparr> rotate_BO = None, radius_BO = None,
        onPressCallback_BO = Some (1::nat), onReleaseCallback_BO = None \<rparr>" HitContainerOnly]
  by (simp add: ButtonController_def onButtonDown_def)

subsection \<open>DpadController\<close>

text \<open>
  What a move does to the direction while the d-pad is pressed, with every step of the
  source spelled out: the centre of the cached rectangle, the displacement, the reverse
  rotation when \<^verbatim>\<open>rotate\<close> is not 0, the angle in degrees and the distance.
\<close>

lemma onDpadMove_direction:
  assumes "isPressed_D s" and "baseRect_D s = Some r"
    and "cx = jadd (Num (rect_left r)) (jdiv (Num (rect_width r)) (Num 2))"
    and "cy = jadd (Num (rect_top r)) (jdiv (Num (rect_height r)) (Num 2))"
    and "x0 = jsub (Num (clientX e)) cx" and "y0 = jsub (Num (clientY e)) cy"
    and "a0 = jdiv (jmul (Num (- rotate_D s)) (Num Math_PI)) (Num 180)"
    and "x = (if rotate_D s \<noteq> 0
              then jsub (jmul x0 (Math_cos M a0)) (jmul y0 (Math_sin M a0)) else x0)"
    and "y = (if rotate_D s \<noteq> 0
              then jadd (jmul x0 (Math_sin M a0)) (jmul y0 (Math_cos M a0)) else y0)"
    and "angle = jdiv (jmul (Math_atan2 M (jneg y) x) (Num 180)) (Num Math_PI)"
    and "centerDistance = Math_sqrt M (jadd (jmul x x) (jmul y y))"
  shows "map_sum id currentDirection_D (onDpadMove M lay e s)
         = Inr (findDirection angle centerDistance (inputRegisterDistance_D s))"
  using assms(1,2) unfolding assms(3-11)
  by (simp add: onDpadMove_def Let_def dpadDisplacement_def pointerOffset_def rotateBack_def
        dpadAngle_def dpadCenterDistance_def)

text \<open>
  C1, evaluated on the code. A d-pad is built with both callbacks supplied (\<open>1\<close> for
  press, \<open>2\<close> for release), pressed 40 pixels to the right of its centre and released.
  The constructor has installed the logging default as release callback, and the
  release invokes that default with \<^verbatim>\<open>center\<close>; the supplied function \<open>2\<close> is never
  called. The press callback is the supplied one.
\<close>

theorem dpad_release_invokes_default_logger:
  "onReleaseCallback_D (DpadController
      \<lparr> radius_DO = Some 100, centerRadiusThreshold_DO = None,
        onPressCallback_DO = Some (1::nat), onReleaseCallback_DO = Some 2,
        keyRepeat_DO = None, rotate_DO = None \<rparr>) = DefaultLogger
   \<and> map_sum id
       (calls_D \<circ>
        onDpadUp
          \<lparr> boundingClientRect =
              \<lparr> rect_left = 0, rect_top = 0, rect_width = 100, rect_height = 100 \<rparr>,
            thumbOffsetWidth = 0 \<rparr>
          (Pointer \<lparr> pointerId = 7, clientX = 90, clientY = 50 \<rparr>))
       (onDpadDown libm
          \<lparr> boundingClientRect =
              \<lparr> rect_left = 0, rect_top = 0, rect_width = 100, rect_height = 100 \<rparr>,
            thumbOffsetWidth = 0 \<rparr>
          (Pointer \<lparr> pointerId = 7, clientX = 90, clientY = 50 \<rparr>)
          (DpadController
            \<lparr> radius_DO = Some 100, centerRadiusThreshold_DO = None,
              onPressCallback_DO = Some (1::nat), onReleaseCallback_DO = Some 2,
              keyRepeat_DO = None, rotate_DO = None \<rparr>))
     = Inr [(Supplied 1, OnPress DRight), (DefaultLogger, OnRelease DCenter)]"
  by (simp add: DpadController_def onDpadDown_def onDpadMove_def onDpadUp_def
        updateContainerRectangle_D_def resetDpad_def dpadDisplacement_def pointerOffset_def
        dpadCenterDistance_def dpadAngle_def findDirection_def libm_def jsub_def jgt_def
        fl_numeral fl_zero fl_half_numeral atan2_zero_pos sqrt_1600 Math_PI_nonzero Let_def)

text \<open>
  C6, as amended. While the d-pad is pressed, a move whose \<^verbatim>\<open>centerDistance\<close>, as the
  handler computes it in doubles from the displacement (reverse-rotated when \<^verbatim>\<open>rotate\<close>
  is not 0), is at most \<^verbatim>\<open>inputRegisterDistance\<close> gives direction \<^verbatim>\<open>center\<close>, whatever
  its angle, whatever rotation is configured and whatever the library functions
  return. A press, by a pointer or by a touch, leaves \<^verbatim>\<open>inputRegisterDistance\<close> at
  \<^verbatim>\<open>(Math.min(width, height) / 2) * centerThreshold\<close> in doubles, for the rectangle the
  layout reports at the press.
\<close>

theorem dpad_dead_zone_is_center:
  assumes "isPressed_D s" and "baseRect_D s = Some r"
    and "cx = jadd (Num (rect_left r)) (jdiv (Num (rect_width r)) (Num 2))"
    and "cy = jadd (Num (rect_top r)) (jdiv (Num (rect_height r)) (Num 2))"
    and "x0 = jsub (Num (clientX e)) cx" and "y0 = jsub (Num (clientY e)) cy"
    and "a0 = jdiv (jmul (Num (- rotate_D s)) (Num Math_PI)) (Num 180)"
    and "x = (if rotate_D s \<noteq> 0
              then jsub (jmul x0 (Math_cos M a0)) (jmul y0 (Math_sin M a0)) else x0)"
    and "y = (if rotate_D s \<noteq> 0
              then jadd (jmul x0 (Math_sin M a0)) (jmul y0 (Math_cos M a0)) else y0)"
    and "angle = jdiv (jmul (Math_atan2 M (jneg y) x) (Num 180)) (Num Math_PI)"
    and "centerDistance = Math_sqrt M (jadd (jmul x x) (jmul y y))"
    and "jle centerDistance (inputRegisterDistance_D s)"
  shows "map_sum id currentDirection_D (onDpadMove M lay e s) = Inr DCenter
         \<and> map_sum id inputRegisterDistance_D (onDpadDown M lay' (Pointer e') s')
             = Inr (jmul (jdiv (Num (min (rect_width (boundingClientRect lay'))
                                         (rect_height (boundingClientRect lay')))) (Num 2))
                         (Num (centerThreshold_D s')))
         \<and> map_sum id inputRegisterDistance_D (onDpadDown M lay' (Touch (t # ts) cs) s')
             = Inr (jmul (jdiv (Num (min (rect_width (boundingClientRect lay'))
                                         (rect_height (boundingClientRect lay')))) (Num 2))
                         (Num (centerThreshold_D s')))"
proof (intro conjI)
  have "findDirection angle centerDistance (inputRegisterDistance_D s) = DCenter"
    using jle_not_jgt [OF assms(12)] by (simp add: findDirection_def)
  then show "map_sum id currentDirection_D (onDpadMove M lay e s) = Inr DCenter"
    using onDpadMove_direction [OF assms(1-11)] by simp
  show "map_sum id inputRegisterDistance_D (onDpadDown M lay' (Pointer e') s')
             = Inr (jmul (jdiv (Num (min (rect_width (boundingClientRect lay'))
                                         (rect_height (boundingClientRect lay')))) (Num 2))
                         (Num (centerThreshold_D s')))"
    by (simp add: onDpadDown_def onDpadMove_def updateContainerRectangle_D_def Let_def)
  show "map_sum id inputRegisterDistance_D (onDpadDown M lay' (Touch (t # ts) cs) s')
             = Inr (jmul (jdiv (Num (min (rect_width (boundingClientRect lay'))
                                         (rect_height (boundingClientRect lay')))) (Num 2))
                         (Num (centerThreshold_D s')))"
    by (simp add: onDpadDown_def onDpadMove_def updateContainerRectangle_D_def Let_def)
qed

text \<open>
  An instance: the rectangle is 100 by 100 at the origin, the dead zone has radius
  12.5, and the pointer is 3 right of and 4 above the centre, at distance 5.
\<close>

theorem dpad_dead_zone_is_center_witness:
  "isPressed_D
     (updateContainerRectangle_D
        \<lparr> boundingClientRect =
            \<lparr> rect_left = 0, rect_top = 0, rect_width = 100, rect_height = 100 \<rparr>,
          thumbOffsetWidth = 0 \<rparr>
        ((DpadController
           \<lparr> radius_DO = Some 100, centerRadiusThreshold_DO = None,
             onPressCallback_DO = Some ''press'', onReleaseCallback_DO = None,
             keyRepeat_DO = None, rotate_DO = None \<rparr>)
         \<lparr> isPressed_D := True, pointerId_D := 7 \<rparr>))
   \<and> dpadCenterDistance libm
       (pointerOffset \<lparr> rect_left = 0, rect_top = 0, rect_width = 100, rect_height = 100 \<rparr>
          \<lparr> pointerId = 7, clientX = 53, clientY = 46 \<rparr>) = Num 5
   \<and> inputRegisterDistance_D
     (updateContainerRectangle_D
        \<lparr> boundingClientRect =
            \<lparr> rect_left = 0, rect_top = 0, rect_width = 100, rect_height = 100 \<rparr>,
          thumbOffsetWidth = 0 \<rparr>
        ((DpadController
           \<lparr> radius_DO = Some 100, centerRadiusThreshold_DO = None,
             onPressCallback_DO = Some ''press'', onReleaseCallback_DO = None,
             keyRepeat_DO = None, rotate_DO = None \<rparr>)
         \<lparr> isPressed_D := True, pointerId_D := 7 \<rparr>)) = Num (25 / 2)
   \<and> map_sum id currentDirection_D
     (onDpadMove libm
        \<lparr> boundingClientRect =
            \<lparr> rect_left = 0, rect_top = 0, rect_width = 100, rect_height = 100 \<rparr>,
          thumbOffsetWidth = 0 \<rparr>
        \<lparr> pointerId = 7, clientX = 53, clientY = 46 \<rparr>
        (updateContainerRectangle_D
           \<lparr> boundingClientRect =
               \<lparr> rect_left = 0, rect_top = 0, rect_width = 100, rect_height = 100 \<rparr>,
             thumbOffsetWidth = 0 \<rparr>
           ((DpadController
              \<lparr> radius_DO = Some 100, centerRadiusThreshold_DO = None,
                onPressCallback_DO = Some ''press'', onReleaseCallback_DO = None,
                keyRepeat_DO = None, rotate_DO = None \<rparr>)
            \<lparr> isPressed_D := True, pointerId_D := 7 \<rparr>)))
   = Inr DCenter"
  using dpad_dead_zone_is_center
    [where M = libm
       and r = "\<lparr> rect_left = 0, rect_top = 0, rect_width = 100, rect_height = 100 \<rparr>"
       and e = "\<lparr> pointerId = 7, clientX = 53, clientY = 46 \<rparr>"
       and lay = "\<lparr> boundingClientRect =
            \<lparr> rect_left = 0, rect_top = 0, rect_width = 100, rect_height = 100 \<rparr>,
          thumbOffsetWidth = 0 \<rparr>"
       and s = "updateContainerRectangle_D
           \<lparr> boundingClientRect =
               \<lparr> rect_left = 0, rect_top = 0, rect_width = 100, rect_height = 100 \<rparr>,
             thumbOffsetWidth = 0 \<rparr>
           ((DpadController
              \<lparr> radius_DO = Some 100, centerRadiusThreshold_DO = None,
                onPressCallback_DO = Some ''press'', onReleaseCallback_DO = None,
                keyRepeat_DO = None, rotate_DO = None \<rparr>)
            \<lparr> isPressed_D := True, pointerId_D := 7 \<rparr>)"
       and lay' = "\<lparr> boundingClientRect =
            \<lparr> rect_left = 0, rect_top = 0, rect_width = 100, rect_height = 100 \<rparr>,
          thumbOffsetWidth = 0 \<rparr>"
       and e' = "\<lparr> pointerId = 7, clientX = 53, clientY = 46 \<rparr>"
       and t = "\<lparr> pointerId = 7, clientX = 53, clientY = 46 \<rparr>"
       and ts = "[]" and cs = "[]"
       and s' = "DpadController
              \<lparr> radius_DO = Some 100, centerRadiusThreshold_DO = None,
                onPressCallback_DO = Some ''press'', onReleaseCallback_DO = None,
                keyRepeat_DO = None, rotate_DO = None \<rparr>",
     OF _ _ refl refl refl refl refl refl refl refl refl]
  by (simp add: updateContainerRectangle_D_def DpadController_def pointerOffset_def
        dpadCenterDistance_def libm_def jsub_def fl_numeral fl_neg_numeral fl_half_numeral
        fl_zero sqrt_25)

text \<open>
  The computed distance can exceed the exact one. The rectangle below starts at the
  double nearest to 0.1 and is 100 wide and high, so its exact centre is at
  \<open>(0.1 + 50, 50)\<close> and the handler's \<^verbatim>\<open>baseCenterX\<close> is the double 50.1. The pointer is
  at the doubles \<open>(37.80416737264206, 52.25)\<close>. Each step of \<^verbatim>\<open>onDpadMove\<close> is
  evaluated: the squared distance comes out as \<open>156.25 + 2\<^sup>-\<^sup>4\<^sup>5\<close> and its square root
  as \<open>12.5 + 2\<^sup>-\<^sup>4\<^sup>9\<close>.
\<close>

lemma edge_centre:
  "jadd (Num (3602879701896397 / 36028797018963968)) (jdiv (Num 100) (Num 2))
   = Num (7050948166601933 / 140737488355328)"
proof -
  have "fl (3602879701896397 / 36028797018963968 + 50)
        = Num (2 powr (real_of_int 5 - 52) * real_of_int 7050948166601933)"
    by (rule fl_eval) (simp_all add: powr_minus_divide powr_numeral)
  then show ?thesis
    by (simp add: powr_minus_divide powr_numeral fl_numeral)
qed

lemma edge_x:
  "jsub (Num (5320463565390083 / 140737488355328)) (Num (7050948166601933 / 140737488355328))
   = Num (- (865242300605925 / 70368744177664))"
  using fl_dyadic [of "- 865242300605925" 46] by (simp add: jsub_def)

lemma edge_xx:
  "jmul (Num (- (865242300605925 / 70368744177664))) (Num (- (865242300605925 / 70368744177664)))
   = Num (5319437255180289 / 35184372088832)"
proof -
  have "fl (- (865242300605925 / 70368744177664) * - (865242300605925 / 70368744177664))
        = Num (2 powr (real_of_int 7 - 52) * real_of_int 5319437255180289)"
    by (rule fl_eval) (simp_all add: powr_minus_divide powr_numeral)
  then show ?thesis
    by (simp add: powr_minus_divide powr_numeral)
qed

lemma edge_cy: "jadd (Num 0) (jdiv (Num 100) (Num 2)) = Num 50"
  by (simp add: fl_numeral)

lemma edge_y: "jsub (Num (209 / 4)) (Num 50) = Num (9 / 4)"
  using fl_dyadic [of 9 2] by (simp add: jsub_def)

lemma edge_yy: "jmul (Num (9 / 4)) (Num (9 / 4)) = Num (81 / 16)"
  using fl_dyadic [of 81 4] by simp

lemma edge_sum:
  "jadd (Num (5319437255180289 / 35184372088832)) (Num (81 / 16))
   = Num (5497558138880001 / 35184372088832)"
  using fl_dyadic [of 5497558138880001 45] by simp

lemma edge_sqrt:
  "libm_sqrt (Num (5497558138880001 / 35184372088832))
   = Num (7036874417766401 / 562949953421312)"
proof -
  define v :: real where "v = 5497558138880001 / 35184372088832"
  have lo: "8 \<le> sqrt v"
    by (rule real_le_rsqrt) (simp add: v_def)
  have hi: "sqrt v < 16"
    by (rule real_less_lsqrt) (simp_all add: v_def)
  have m1: "14073748835532801 / 1125899906842624 < sqrt v"
    by (rule real_less_rsqrt) (simp add: v_def power2_eq_square)
  have m2: "sqrt v < 14073748835532803 / 1125899906842624"
    by (rule real_less_lsqrt) (simp_all add: v_def power2_eq_square)
  have "fl (sqrt v) = Num (2 powr (real_of_int 3 - 52) * real_of_int 7036874417766401)"
  proof (rule fl_eval)
    show "2 powr real_of_int 3 \<le> \<bar>sqrt v\<bar>"
      using lo by (simp add: powr_numeral)
    show "\<bar>sqrt v\<bar> < 2 powr (real_of_int 3 + 1)"
      using hi lo by (simp add: powr_numeral)
    show "real_of_int 7036874417766401 - 1 / 2 < sqrt v / 2 powr (real_of_int 3 - 52)"
      using m1 by (simp add: powr_minus_divide powr_numeral)
    show "sqrt v / 2 powr (real_of_int 3 - 52) < real_of_int 7036874417766401 + 1 / 2"
      using m2 by (simp add: powr_minus_divide powr_numeral)
  qed simp_all
  then show ?thesis
    by (simp add: v_def powr_minus_divide powr_numeral)
qed

lemma edge_distance:
  "dpadCenterDistance libm
     (pointerOffset
        \<lparr> rect_left = 3602879701896397 / 36028797018963968, rect_top = 0,
          rect_width = 100, rect_height = 100 \<rparr>
        \<lparr> pointerId = 7, clientX = 5320463565390083 / 140737488355328, clientY = 209 / 4 \<rparr>)
   = Num (7036874417766401 / 562949953421312)"
  by (simp only: dpadCenterDistance_def pointerOffset_def Let_def fst_conv snd_conv
        DOMRect.select_convs PointerEvent.select_convs libm_def Math.select_convs
        edge_centre edge_x edge_xx edge_cy edge_y edge_yy edge_sum edge_sqrt)

lemma edge_offset:
  "pointerOffset
        \<lparr> rect_left = 3602879701896397 / 36028797018963968, rect_top = 0,
          rect_width = 100, rect_height = 100 \<rparr>
        \<lparr> pointerId = 7, clientX = 5320463565390083 / 140737488355328, clientY = 209 / 4 \<rparr>
   = (Num (- (865242300605925 / 70368744177664)), Num (9 / 4))"
  by (simp only: pointerOffset_def Let_def DOMRect.select_convs PointerEvent.select_convs
        edge_centre edge_x edge_cy edge_y)

text \<open>
  A displacement to the left and slightly below the centre: the angle in degrees, as
  computed from a correctly rounded \<^verbatim>\<open>Math.atan2\<close>, is below -157.5.
\<close>

lemma libm_angle_left:
  assumes x: "x < 0" "- 100 \<le> x" and y: "0 < y" and slope: "y \<le> 19 / 100 * (- x)"
  shows "\<exists>a. dpadAngle libm (Num x, Num y) = Num a \<and> a \<le> - (315 / 2)"
proof -
  define v where "v = atan2 (- y) x"
  have q: "(- y) / x \<le> 19 / 100"
  proof -
    have "(- y) / x = y / (- x)"
      by simp
    also have "\<dots> \<le> 19 / 100"
    proof -
      have "0 < - x"
        using x(1) by simp
      then show ?thesis
        using slope by (simp only: pos_divide_le_eq)
    qed
    finally show ?thesis .
  qed
  have "arctan ((- y) / x) \<le> arctan (19 / 100)"
    using q by (simp only: arctan_le_iff)
  then have "arctan ((- y) / x) < pi / 16"
    using arctan_19_100 by linarith
  moreover have "v = arctan ((- y) / x) - pi"
    using x(1) y by (simp add: v_def atan2_def)
  ultimately have hi: "v \<le> - (45 / 16)"
    using pi_gt_3 by linarith
  have lo: "\<bar>v\<bar> \<le> 6"
    unfolding v_def by (rule atan2_bound)
  have small: "\<bar>u\<bar> < 2 ^ 1023" if "\<bar>u\<bar> \<le> 2000" for u :: real
  proof -
    have "(2000::real) < 2 ^ 1023" by simp
    then show ?thesis using that by linarith
  qed
  obtain r1 where r1: "fl v = Num r1" "\<bar>r1 - v\<bar> \<le> \<bar>v\<bar> / 2 ^ 53 + 1 / 2 ^ 1075"
    using fl_error [OF small, of v] lo by auto
  have r1a: "r1 \<le> - (14 / 5)"
    using r1(2) hi lo by (simp del: keep_divide; linarith)
  have r1c: "\<bar>r1\<bar> \<le> 7"
    using r1(2) hi lo by (simp del: keep_divide; linarith)
  note r1b = r1a r1c
  have m2: "\<bar>r1 * 180\<bar> \<le> 1260"
    using r1b(2) by (simp add: abs_mult)
  obtain r2 where r2: "fl (r1 * 180) = Num r2"
      "\<bar>r2 - r1 * 180\<bar> \<le> \<bar>r1 * 180\<bar> / 2 ^ 53 + 1 / 2 ^ 1075"
    using fl_error [OF small, of "r1 * 180"] m2 by auto
  have r2a: "r2 \<le> - 503"
    using r2(2) r1b(1) m2 by (simp del: keep_divide; linarith)
  have r2c: "\<bar>r2\<bar> \<le> 1261"
    using r2(2) r1b(1) m2 by (simp del: keep_divide; linarith)
  note r2b = r2a r2c
  have PI: "3 \<le> Math_PI" "Math_PI \<le> 22 / 7"
    by (simp_all add: Math_PI_def)
  have q3: "r2 / Math_PI \<le> - 160"
  proof -
    have "r2 / Math_PI \<le> (- 503) / Math_PI"
      using r2b(1) PI(1) by (intro divide_right_mono) simp_all
    also have "\<dots> = - (503 / Math_PI)"
      by simp
    also have "\<dots> \<le> - (503 / (22 / 7))"
      using PI by (simp only: neg_le_iff_le) (intro divide_left_mono; simp)
    also have "\<dots> \<le> - 160"
      by simp
    finally show ?thesis .
  qed
  have m3: "\<bar>r2 / Math_PI\<bar> \<le> 1261"
  proof -
    have "\<bar>r2\<bar> / Math_PI \<le> \<bar>r2\<bar> / 1"
      using PI(1) by (intro divide_left_mono) simp_all
    then show ?thesis
      using r2b(2) Math_PI_pos by (simp add: abs_divide)
  qed
  obtain r3 where r3: "fl (r2 / Math_PI) = Num r3"
      "\<bar>r3 - r2 / Math_PI\<bar> \<le> \<bar>r2 / Math_PI\<bar> / 2 ^ 53 + 1 / 2 ^ 1075"
    using fl_error [OF small, of "r2 / Math_PI"] m3 by auto
  have "r3 \<le> - (315 / 2)"
    using r3(2) q3 m3 by (simp del: keep_divide; linarith)
  moreover have "dpadAngle libm (Num x, Num y) = Num r3"
    using r1(1) r2(1) r3(1) Math_PI_nonzero by (simp add: dpadAngle_def libm_def v_def)
  ultimately show ?thesis
    by blast
qed

lemma findDirection_left:
  assumes "jgt centerDistance inputRegisterDistance" and "a \<le> - (315 / 2)"
  shows "findDirection (Num a) centerDistance inputRegisterDistance = DLeft"
  using assms by (simp add: findDirection_def jgt_def)

lemma edge_angle:
  "\<exists>a. dpadAngle libm (Num (- (865242300605925 / 70368744177664)), Num (9 / 4)) = Num a
        \<and> a \<le> - (315 / 2)"
  by (rule libm_angle_left) simp_all

text \<open>
  C6 as stated fails at that pointer: its exact distance from the centre of the
  rectangle is at most the dead-zone radius 12.5, the handler's \<^verbatim>\<open>centerDistance\<close> is
  the next double above 12.5, and the direction the move sets is \<^verbatim>\<open>left\<close>.
\<close>

theorem dpad_dead_zone_rounding_counterexample:
  "isPressed_D
     (updateContainerRectangle_D
        \<lparr> boundingClientRect =
            \<lparr> rect_left = 3602879701896397 / 36028797018963968, rect_top = 0,
              rect_width = 100, rect_height = 100 \<rparr>,
          thumbOffsetWidth = 0 \<rparr>
        ((DpadController
           \<lparr> radius_DO = Some 100, centerRadiusThreshold_DO = None,
             onPressCallback_DO = Some ''press'', onReleaseCallback_DO = None,
             keyRepeat_DO = None, rotate_DO = None \<rparr>)
         \<lparr> isPressed_D := True, pointerId_D := 7 \<rparr>))
   \<and> inputRegisterDistance_D
     (updateContainerRectangle_D
        \<lparr> boundingClientRect =
            \<lparr> rect_left = 3602879701896397 / 36028797018963968, rect_top = 0,
              rect_width = 100, rect_height = 100 \<rparr>,
          thumbOffsetWidth = 0 \<rparr>
        ((DpadController
           \<lparr> radius_DO = Some 100, centerRadiusThreshold_DO = None,
             onPressCallback_DO = Some ''press'', onReleaseCallback_DO = None,
             keyRepeat_DO = None, rotate_DO = None \<rparr>)
         \<lparr> isPressed_D := True, pointerId_D := 7 \<rparr>)) = Num (25 / 2)
   \<and> sqrt ((5320463565390083 / 140737488355328
             - (3602879701896397 / 36028797018963968 + 100 / 2))\<^sup>2
           + (209 / 4 - (0 + 100 / 2))\<^sup>2) \<le> 25 / 2
   \<and> dpadCenterDistance libm
       (pointerOffset
          \<lparr> rect_left = 3602879701896397 / 36028797018963968, rect_top = 0,
            rect_width = 100, rect_height = 100 \<rparr>
          \<lparr> pointerId = 7, clientX = 5320463565390083 / 140737488355328, clientY = 209 / 4 \<rparr>)
     = Num (7036874417766401 / 562949953421312)
   \<and> map_sum id currentDirection_D
     (onDpadMove libm
        \<lparr> boundingClientRect =
            \<lparr> rect_left = 3602879701896397 / 36028797018963968, rect_top = 0,
              rect_width = 100, rect_height = 100 \<rparr>,
          thumbOffsetWidth = 0 \<rparr>
        \<lparr> pointerId = 7, clientX = 5320463565390083 / 140737488355328, clientY = 209 / 4 \<rparr>
        (updateContainerRectangle_D
           \<lparr> boundingClientRect =
               \<lparr> rect_left = 3602879701896397 / 36028797018963968, rect_top = 0,
                 rect_width = 100, rect_height = 100 \<rparr>,
             thumbOffsetWidth = 0 \<rparr>
           ((DpadController
              \<lparr> radius_DO = Some 100, centerRadiusThreshold_DO = None,
                onPressCallback_DO = Some ''press'', onReleaseCallback_DO = None,
                keyRepeat_DO = None, rotate_DO = None \<rparr>)
            \<lparr> isPressed_D := True, pointerId_D := 7 \<rparr>)))
   = Inr DLeft"
proof -
  let ?R = "\<lparr> rect_left = 3602879701896397 / 36028797018963968, rect_top = 0,
              rect_width = 100, rect_height = 100 \<rparr>"
  let ?E = "\<lparr> pointerId = 7, clientX = 5320463565390083 / 140737488355328,
              clientY = 209 / 4 \<rparr>"
  obtain a where a: "dpadAngle libm (pointerOffset ?R ?E) = Num a" "a \<le> - (315 / 2)"
    unfolding edge_offset using edge_angle by blast
  have d: "findDirection (Num a) (Num (7036874417766401 / 562949953421312)) (Num (25 / 2))
           = DLeft"
    by (rule findDirection_left [OF _ a(2)]) (simp add: jgt_def)
  have exact: "sqrt ((5320463565390083 / 140737488355328
             - (3602879701896397 / 36028797018963968 + 100 / 2))\<^sup>2
           + (209 / 4 - (0 + 100 / 2))\<^sup>2) \<le> (25 / 2 :: real)"
    by (rule real_le_lsqrt) (simp_all add: power2_eq_square)
  show ?thesis
    using d exact
    by (simp add: updateContainerRectangle_D_def DpadController_def onDpadMove_def Let_def
          dpadDisplacement_def a(1) edge_distance fl_numeral fl_half_numeral)
qed

text \<open>
  C3, as amended. While the d-pad is pressed and the computed distance is beyond the
  dead zone, a computed angle in \<open>(-22.5, 22.5]\<close> gives \<^verbatim>\<open>right\<close> and one in
  \<open>(22.5, 67.5]\<close> gives \<^verbatim>\<open>up-right\<close>: the sectors include their upper bound, so an
  angle of exactly 22.5 is \<^verbatim>\<open>right\<close>, as is anything less than 45 degrees below it.
  The angle is the double \<^verbatim>\<open>(Math.atan2(-y, x) * 180) / Math.PI\<close>, for whatever the
  library functions return.
\<close>

theorem dpad_sector_boundary:
  assumes "isPressed_D s" and "baseRect_D s = Some r"
    and "cx = jadd (Num (rect_left r)) (jdiv (Num (rect_width r)) (Num 2))"
    and "cy = jadd (Num (rect_top r)) (jdiv (Num (rect_height r)) (Num 2))"
    and "x0 = jsub (Num (clientX e)) cx" and "y0 = jsub (Num (clientY e)) cy"
    and "a0 = jdiv (jmul (Num (- rotate_D s)) (Num Math_PI)) (Num 180)"
    and "x = (if rotate_D s \<noteq> 0
              then jsub (jmul x0 (Math_cos M a0)) (jmul y0 (Math_sin M a0)) else x0)"
    and "y = (if rotate_D s \<noteq> 0
              then jadd (jmul x0 (Math_sin M a0)) (jmul y0 (Math_cos M a0)) else y0)"
    and "angle = jdiv (jmul (Math_atan2 M (jneg y) x) (Num 180)) (Num Math_PI)"
    and "centerDistance = Math_sqrt M (jadd (jmul x x) (jmul y y))"
    and "jgt centerDistance (inputRegisterDistance_D s)"
    and "jgt angle (Num (- 22.5))" and "jle angle (Num 67.5)"
  shows "map_sum id currentDirection_D (onDpadMove M lay e s)
         = Inr (if jle angle (Num 22.5) then DRight else DUpRight)"
proof -
  have "findDirection angle centerDistance (inputRegisterDistance_D s)
        = (if jle angle (Num 22.5) then DRight else DUpRight)"
  proof (cases angle)
    case (Num a)
    then show ?thesis
      using assms(12-14) by (simp add: findDirection_def jgt_def)
  qed (use assms(12-14) in \<open>simp_all add: jgt_def\<close>)
  then show ?thesis
    using onDpadMove_direction [OF assms(1-11)] by simp
qed

text \<open>An instance: 40 pixels to the right of the centre, at angle 0.\<close>

theorem dpad_sector_boundary_witness:
  "isPressed_D
     (updateContainerRectangle_D
        \<lparr> boundingClientRect =
            \<lparr> rect_left = 0, rect_top = 0, rect_width = 100, rect_height = 100 \<rparr>,
          thumbOffsetWidth = 0 \<rparr>
        ((DpadController
           \<lparr> radius_DO = Some 100, centerRadiusThreshold_DO = None,
             onPressCallback_DO = Some ''press'', onReleaseCallback_DO = None,
             keyRepeat_DO = None, rotate_DO = None \<rparr>)
         \<lparr> isPressed_D := True, pointerId_D := 7 \<rparr>))
   \<and> dpadCenterDistance libm
       (pointerOffset \<lparr> rect_left = 0, rect_top = 0, rect_width = 100, rect_height = 100 \<rparr>
          \<lparr> pointerId = 7, clientX = 90, clientY = 50 \<rparr>) = Num 40
   \<and> dpadAngle libm
       (pointerOffset \<lparr> rect_left = 0, rect_top = 0, rect_width = 100, rect_height = 100 \<rparr>
          \<lparr> pointerId = 7, clientX = 90, clientY = 50 \<rparr>) = Num 0
   \<and> map_sum id currentDirection_D
     (onDpadMove libm
        \<lparr> boundingClientRect =
            \<lparr> rect_left = 0, rect_top = 0, rect_width = 100, rect_height = 100 \<rparr>,
          thumbOffsetWidth = 0 \<rparr>
        \<lparr> pointerId = 7, clientX = 90, clientY = 50 \<rparr>
        (updateContainerRectangle_D
           \<lparr> boundingClientRect =
               \<lparr> rect_left = 0, rect_top = 0, rect_width = 100, rect_height = 100 \<rparr>,
             thumbOffsetWidth = 0 \<rparr>
           ((DpadController
              \<lparr> radius_DO = Some 100, centerRadiusThreshold_DO = None,
                onPressCallback_DO = Some ''press'', onReleaseCallback_DO = None,
                keyRepeat_DO = None, rotate_DO = None \<rparr>)
            \<lparr> isPressed_D := True, pointerId_D := 7 \<rparr>)))
   = Inr DRight"
  using dpad_sector_boundary
    [where M = libm
       and r = "\<lparr> rect_left = 0, rect_top = 0, rect_width = 100, rect_height = 100 \<rparr>"
       and e = "\<lparr> pointerId = 7, clientX = 90, clientY = 50 \<rparr>"
       and lay = "\<lparr> boundingClientRect =
            \<lparr> rect_left = 0, rect_top = 0, rect_width = 100, rect_height = 100 \<rparr>,
          thumbOffsetWidth = 0 \<rparr>"
       and s = "updateContainerRectangle_D
           \<lparr> boundingClientRect =
               \<lparr> rect_left = 0, rect_top = 0, rect_width = 100, rect_height = 100 \<rparr>,
             thumbOffsetWidth = 0 \<rparr>
           ((DpadController
              \<lparr> radius_DO = Some 100, centerRadiusThreshold_DO = None,
                onPressCallback_DO = Some ''press'', onReleaseCallback_DO = None,
                keyRepeat_DO = None, rotate_DO = None \<rparr>)
            \<lparr> isPressed_D := True, pointerId_D := 7 \<rparr>)",
     OF _ _ refl refl refl refl refl refl refl refl refl]
  by (simp add: updateContainerRectangle_D_def DpadController_def pointerOffset_def
        dpadCenterDistance_def dpadAngle_def libm_def jsub_def jgt_def fl_numeral
        fl_neg_numeral fl_half_numeral fl_zero sqrt_1600 atan2_zero_pos Math_PI_nonzero)

text \<open>
  C3 as stated fails: the chain of sector tests of \<^verbatim>\<open>onDpadMove\<close>, at an angle of
  exactly 22.5 and a distance of 30 beyond the dead zone of radius 12.5, gives
  \<^verbatim>\<open>right\<close>, not \<^verbatim>\<open>up-right\<close>.
\<close>

theorem dpad_exact_22_5_counterexample:
  "findDirection (Num 22.5) (Num 30) (Num 12.5) = DRight"
  by (simp add: findDirection_def jgt_def)

subsection \<open>RetrackableSlider\<close>

text \<open>The constructor fills both callback fields, and no handler changes them.\<close>

lemma RetrackableSlider_callbacks:
  "onSlideCallback_S (RetrackableSlider options) = Some (orDefault (onSlideCallback_SO options))"
  "onReleaseCallback_S (RetrackableSlider options) = Some (orDefault (onReleaseCallback_SO options))"
  by (simp_all add: RetrackableSlider_def)

lemma slider_callbacks_kept:
  "onReleaseCallback_S (onSliderUp lay e s) = onReleaseCallback_S s"
  "onSlideCallback_S (onSliderUp lay e s) = onSlideCallback_S s"
  "onReleaseCallback_S (onSliderDown lay e s) = onReleaseCallback_S s"
  "onSlideCallback_S (onSliderDown lay e s) = onSlideCallback_S s"
  "map_sum id onReleaseCallback_S (onSliderMove lay e s) = Inr (onReleaseCallback_S s)"
  "map_sum id onSlideCallback_S (onSliderMove lay e s) = Inr (onSlideCallback_S s)"
  by (simp_all add: onSliderUp_def onSliderDown_def onSliderMove_def invoke_S_def updateUI_def
        updateContainerRectangle_S_def Let_def split: option.splits)

text \<open>
  C8. A release sets \<^verbatim>\<open>isPressed\<close> to false and leaves the value at 0. When the value
  was not 0 before (\<^verbatim>\<open>valuePercent !== 0\<close>), the release callback is invoked exactly
  once; when it was 0, no callback is invoked.
\<close>

theorem slider_release_retracts:
  assumes "onReleaseCallback_S s = Some f"
  shows "valuePercent_S (onSliderUp lay e s) = Num 0
         \<and> \<not> isPressed_S (onSliderUp lay e s)
         \<and> calls_S (onSliderUp lay e s) =
             (if jne (valuePercent_S s) (Num 0) then calls_S s @ [(f, OnSliderRelease)]
              else calls_S s)"
  using assms by (auto simp add: onSliderUp_def invoke_S_def updateUI_def Let_def jne_def)

theorem slider_release_retracts_witness:
  "onReleaseCallback_S
     ((RetrackableSlider
          \<lparr> direction_SO = None, onSlideCallback_SO = Some ''slide'',
            onReleaseCallback_SO = Some ''release'' \<rparr>)
        \<lparr> isPressed_S := True, valuePercent_S := Num 40, shownPercent_S := Num 40 \<rparr>)
     = Some (Supplied ''release'')
   \<and> valuePercent_S
       (onSliderUp
          \<lparr> boundingClientRect =
              \<lparr> rect_left = 0, rect_top = 0, rect_width = 20, rect_height = 200 \<rparr>,
            thumbOffsetWidth = 0 \<rparr>
          \<lparr> pointerId = 7, clientX = 10, clientY = 120 \<rparr>
          ((RetrackableSlider
              \<lparr> direction_SO = None, onSlideCallback_SO = Some ''slide'',
                onReleaseCallback_SO = Some ''release'' \<rparr>)
           \<lparr> isPressed_S := True, valuePercent_S := Num 40, shownPercent_S := Num 40 \<rparr>)) = Num 0
   \<and> calls_S
       (onSliderUp
          \<lparr> boundingClientRect =
              \<lparr> rect_left = 0, rect_top = 0, rect_width = 20, rect_height = 200 \<rparr>,
            thumbOffsetWidth = 0 \<rparr>
          \<lparr> pointerId = 7, clientX = 10, clientY = 120 \<rparr>
          ((RetrackableSlider
              \<lparr> direction_SO = None, onSlideCallback_SO = Some ''slide'',
                onReleaseCallback_SO = Some ''release'' \<rparr>)
           \<lparr> isPressed_S := True, valuePercent_S := Num 40, shownPercent_S := Num 40 \<rparr>))
     = [(Supplied ''release'', OnSliderRelease)]"
proof -
  let ?L = "\<lparr> boundingClientRect =
              \<lparr> rect_left = 0, rect_top = 0, rect_width = 20, rect_height = 200 \<rparr>,
            thumbOffsetWidth = 0 \<rparr>"
  let ?E = "\<lparr> pointerId = 7, clientX = 10, clientY = 120 \<rparr>"
  let ?S = "(RetrackableSlider
          \<lparr> direction_SO = None, onSlideCallback_SO = Some ''slide'',
            onReleaseCallback_SO = Some ''release'' \<rparr>)
        \<lparr> isPressed_S := True, valuePercent_S := Num 40, shownPercent_S := Num 40 \<rparr>"
  have h: "onReleaseCallback_S ?S = Some (Supplied ''release'')"
    by (simp add: RetrackableSlider_def)
  from slider_release_retracts [OF h, of ?L ?E] h show ?thesis
    by (simp add: RetrackableSlider_def jne_def)
qed












subsection \<open>JoysickController\<close>

text \<open>
  C5. Both \<^verbatim>\<open>pointerup\<close> and \<^verbatim>\<open>pointercancel\<close> run \<^verbatim>\<open>onJoysickUp\<close>, which invokes no
  callback (so no \<open>(0, 0)\<close> is emitted), clears \<^verbatim>\<open>isPressed\<close> and puts the thumb back
  to the centre.
\<close>

theorem joystick_release_is_silent:
  "dispatch_J ''pointerup'' M lay e s = Inr (onJoysickUp lay e s)
   \<and> dispatch_J ''pointercancel'' M lay e s = Inr (onJoysickUp lay e s)
   \<and> calls_J (onJoysickUp lay e s) = calls_J s
   \<and> \<not> isPressed_J (onJoysickUp lay e s)
   \<and> thumbTransform_J (onJoysickUp lay e s) = TranslateCenter"
  by (simp add: dispatch_J_def joystick_listeners_def onJoysickUp_def)

text \<open>
  The pair a move reports, with every step of the source spelled out: the
  displacement from the centre of the cached rectangle, its length by \<^verbatim>\<open>Math.hypot\<close>,
  the scaling by \<^verbatim>\<open>thumbMaxDistance / distance\<close> when it is longer than
  \<^verbatim>\<open>thumbMaxDistance\<close>, the reverse rotation when \<^verbatim>\<open>rotate\<close> is not 0, and for each
  component the quotient by \<^verbatim>\<open>thumbMaxDistance\<close>, clamped and printed to two decimals.
\<close>

lemma onJoysickMove_payload:
  assumes "isPressed_J s" and "baseRect_J s = Some r"
    and "cx = jadd (Num (rect_left r)) (jdiv (Num (rect_width r)) (Num 2))"
    and "cy = jadd (Num (rect_top r)) (jdiv (Num (rect_height r)) (Num 2))"
    and "dx = jsub (Num (clientX e)) cx" and "dy = jsub (Num (clientY e)) cy"
    and "distance = Math_hypot M dx dy"
    and "tmd = thumbMaxDistance_J s"
    and "sx = (if jgt distance tmd then jmul dx (jdiv tmd distance) else dx)"
    and "sy = (if jgt distance tmd then jmul dy (jdiv tmd distance) else dy)"
    and "a0 = jdiv (jmul (Num (- rotate_J s)) (Num Math_PI)) (Num 180)"
    and "px = (if rotate_J s \<noteq> 0
               then jsub (jmul sx (Math_cos M a0)) (jmul sy (Math_sin M a0)) else sx)"
    and "py = (if rotate_J s \<noteq> 0
               then jadd (jmul sx (Math_sin M a0)) (jmul sy (Math_cos M a0)) else sy)"
    and "x = toFixed2 (Math_max (Num (- 1)) (Math_min (Num 1) (jdiv px tmd)))"
    and "y = toFixed2 (Math_max (Num (- 1)) (Math_min (Num 1) (jdiv py tmd)))"
  shows "map_sum id calls_J (onJoysickMove M lay e s)
           = Inr (calls_J s @ [(onInputCallback_J s, x, y)])"
    and "map_sum id thumbTransform_J (onJoysickMove M lay e s) = Inr (TranslateOffset px py)"
  using assms(1,2) unfolding assms(3-15)
  by (simp_all add: onJoysickMove_def Let_def joystickThumbOffset_def pointerOffset_def
        rotateBack_def normalizeAxis_def)

text \<open>
  The accumulated rounding error of a displacement beyond the disc. With \<open>t\<close> the
  value of \<^verbatim>\<open>thumbMaxDistance\<close>, \<open>D\<close> the computed length and \<open>h\<close> the exact one, each
  scaled component is within \<open>t / 2\<^sup>3\<^sup>8\<close> of \<open>t\<close> times the component of the unit
  vector, each rotated one within \<open>t / 2\<^sup>3\<^sup>4\<close>, and each quotient within \<open>2\<^sup>-\<^sup>3\<^sup>3\<close>.
\<close>

lemma hypot_ratio:
  fixes X Y D t h :: real
  assumes h: "h = sqrt (X\<^sup>2 + Y\<^sup>2)" and t: "0 < t" "t < D"
    and D: "\<bar>D - h\<bar> \<le> h / 2 ^ 40"
  shows "0 < h" and "\<bar>X\<bar> \<le> h" and "\<bar>Y\<bar> \<le> h" and "h \<le> 2 * D"
    and "\<bar>t * X / D - t * (X / h)\<bar> \<le> t / 2 ^ 39"
    and "\<bar>t * Y / D - t * (Y / h)\<bar> \<le> t / 2 ^ 39"
proof -
  have h0: "0 \<le> h"
    unfolding h by simp
  have Dpos: "0 < D"
    using t by linarith
  show hpos: "0 < h"
  proof (rule ccontr)
    assume "\<not> 0 < h"
    then have "h = 0" using h0 by linarith
    then show False using D Dpos by simp
  qed
  have "sqrt (X\<^sup>2) \<le> sqrt (X\<^sup>2 + Y\<^sup>2)" "sqrt (Y\<^sup>2) \<le> sqrt (X\<^sup>2 + Y\<^sup>2)"
    by (rule real_sqrt_le_mono, simp)+
  then show X: "\<bar>X\<bar> \<le> h" and Y: "\<bar>Y\<bar> \<le> h"
    unfolding h by simp_all
  show h2: "h \<le> 2 * D"
    using D hpos by (simp del: keep_divide; linarith)
  have b: "\<bar>(h - D) / D\<bar> \<le> 1 / 2 ^ 39"
  proof -
    have "\<bar>h - D\<bar> \<le> h / 2 ^ 40"
      using D by (simp add: abs_minus_commute)
    also have "\<dots> \<le> (2 * D) / 2 ^ 40"
      using h2 by (simp add: divide_right_mono)
    also have "\<dots> = (1 / 2 ^ 39) * D"
      by simp
    finally have "\<bar>h - D\<bar> / D \<le> 1 / 2 ^ 39"
      using Dpos by (simp only: pos_divide_le_eq)
    then show ?thesis
      using Dpos by (simp add: abs_divide)
  qed
  have ratio: "\<bar>t * Z / D - t * (Z / h)\<bar> \<le> t / 2 ^ 39" if Z: "\<bar>Z\<bar> \<le> h" for Z
  proof -
    have e: "t * Z / D - t * (Z / h) = t * ((Z / h) * ((h - D) / D))"
      using hpos Dpos by (simp add: field_simps)
    have a: "\<bar>Z / h\<bar> \<le> 1"
      using Z hpos by (simp add: abs_divide)
    have "\<bar>(Z / h) * ((h - D) / D)\<bar> \<le> 1 * (1 / 2 ^ 39)"
      unfolding abs_mult by (rule mult_mono [OF a b]) simp_all
    then have "t * \<bar>(Z / h) * ((h - D) / D)\<bar> \<le> t * (1 * (1 / 2 ^ 39))"
      using t(1) by (intro mult_left_mono) simp_all
    then show ?thesis
      unfolding e using t(1) by (simp add: abs_mult)
  qed
  show "\<bar>t * X / D - t * (X / h)\<bar> \<le> t / 2 ^ 39"
    by (rule ratio [OF X])
  show "\<bar>t * Y / D - t * (Y / h)\<bar> \<le> t / 2 ^ 39"
    by (rule ratio [OF Y])
qed

lemma scale_component:
  assumes t: "1 / 2 ^ 100 \<le> t" "t \<le> 2 ^ 102" and tD: "t < D"
    and X: "\<bar>X\<bar> \<le> 2 ^ 100" "\<bar>X\<bar> \<le> 2 * D"
    and a: "\<bar>t * X / D - t * a\<bar> \<le> t / 2 ^ 39"
  shows "\<exists>sx. jmul (Num X) (jdiv (Num t) (Num D)) = Num sx \<and> \<bar>sx - t * a\<bar> \<le> t / 2 ^ 38"
proof -
  have tpos: "0 < t"
  proof -
    have "(0::real) < 1 / 2 ^ 100" by simp
    then show ?thesis using t(1) by linarith
  qed
  have Dpos: "0 < D"
    using tpos tD by linarith
  define rho where "rho = t / D"
  have rho: "0 < rho" "rho < 1"
    using tpos tD Dpos by (simp_all add: rho_def)
  have "\<bar>rho\<bar> < 2 ^ 1023"
  proof -
    have "\<bar>rho\<bar> < 1" using rho by simp
    also have "(1::real) < 2 ^ 1023" by simp
    finally show ?thesis .
  qed
  then obtain s1 where s1: "fl rho = Num s1" "\<bar>s1 - rho\<bar> \<le> \<bar>rho\<bar> / 2 ^ 53 + 1 / 2 ^ 1075"
    using fl_error by blast
  have Xrho: "\<bar>X\<bar> * rho \<le> 2 * t"
  proof -
    have "\<bar>X\<bar> * rho \<le> (2 * D) * rho"
      using X(2) rho(1) by (intro mult_right_mono) simp_all
    also have "\<dots> = 2 * t"
      using Dpos by (simp add: rho_def)
    finally show ?thesis .
  qed
  have e1: "\<bar>X * s1 - X * rho\<bar> \<le> t / 2 ^ 51"
  proof -
    have "\<bar>X * s1 - X * rho\<bar> = \<bar>X\<bar> * \<bar>s1 - rho\<bar>"
      by (simp add: abs_mult right_diff_distrib [symmetric])
    also have "\<dots> \<le> \<bar>X\<bar> * (\<bar>rho\<bar> / 2 ^ 53 + 1 / 2 ^ 1075)"
      using s1(2) by (intro mult_left_mono) simp_all
    also have "\<dots> = (\<bar>X\<bar> * rho) / 2 ^ 53 + \<bar>X\<bar> * (1 / 2 ^ 1075)"
      using rho(1) by (simp add: algebra_simps)
    also have "\<dots> \<le> (2 * t) / 2 ^ 53 + 2 ^ 100 * (1 / 2 ^ 1075)"
      using Xrho X(1) by (intro add_mono divide_right_mono mult_right_mono) simp_all
    also have "\<dots> \<le> t / 2 ^ 51"
      using t(1) by (simp del: keep_divide; linarith)
    finally show ?thesis .
  qed
  have "\<bar>X * rho\<bar> \<le> 2 * t"
    using Xrho rho(1) by (simp add: abs_mult)
  then have m: "\<bar>X * s1\<bar> \<le> 4 * t"
    using e1 tpos by (simp del: keep_divide; linarith)
  obtain sx where sx: "fl (X * s1) = Num sx" "\<bar>sx - X * s1\<bar> \<le> t / 2 ^ 50"
    using fl_scaled [OF m t] by blast
  have "X * rho = t * X / D"
    by (simp add: rho_def)
  then have "\<bar>sx - t * a\<bar> \<le> t / 2 ^ 38"
    using sx(2) e1 a tpos by (simp del: keep_divide; linarith)
  moreover have "jmul (Num X) (jdiv (Num t) (Num D)) = Num sx"
    using Dpos s1(1) sx(1) by (simp add: rho_def)
  ultimately show ?thesis
    by blast
qed

lemma product_component:
  assumes t: "1 / 2 ^ 100 \<le> t" "t \<le> 2 ^ 102"
    and sx: "\<bar>sx - t * a\<bar> \<le> t / 2 ^ 38" and a: "\<bar>a\<bar> \<le> 1" and c: "\<bar>c\<bar> \<le> 1"
    and C: "\<bar>C - c\<bar> \<le> 1 / 2 ^ 40"
  shows "\<exists>p. fl (sx * C) = Num p \<and> \<bar>p - t * (a * c)\<bar> \<le> t / 2 ^ 36"
proof -
  have tpos: "0 < t"
  proof -
    have "(0::real) < 1 / 2 ^ 100" by simp
    then show ?thesis using t(1) by linarith
  qed
  have ta: "\<bar>t * a\<bar> \<le> t"
    using a tpos by (simp add: abs_mult)
  then have sx2: "\<bar>sx\<bar> \<le> 2 * t"
    using sx tpos by (simp del: keep_divide; linarith)
  have e: "sx * C - t * (a * c) = sx * (C - c) + c * (sx - t * a)"
    by (simp add: algebra_simps)
  have "\<bar>sx * (C - c)\<bar> \<le> (2 * t) * (1 / 2 ^ 40)"
    unfolding abs_mult using sx2 C by (intro mult_mono) simp_all
  moreover have "\<bar>c * (sx - t * a)\<bar> \<le> 1 * (t / 2 ^ 38)"
    unfolding abs_mult using c sx by (intro mult_mono) simp_all
  ultimately have d: "\<bar>sx * C - t * (a * c)\<bar> \<le> t / 2 ^ 37"
    unfolding e using tpos by (simp del: keep_divide; linarith)
  have "\<bar>t * (a * c)\<bar> \<le> t"
  proof -
    have "\<bar>a * c\<bar> \<le> 1 * 1"
      unfolding abs_mult using a c by (intro mult_mono) simp_all
    then show ?thesis
      using tpos by (simp add: abs_mult)
  qed
  then have m: "\<bar>sx * C\<bar> \<le> 4 * t"
    using d tpos by (simp del: keep_divide; linarith)
  obtain p where p: "fl (sx * C) = Num p" "\<bar>p - sx * C\<bar> \<le> t / 2 ^ 50"
    using fl_scaled [OF m t] by blast
  have "\<bar>p - t * (a * c)\<bar> \<le> t / 2 ^ 36"
    using p(2) d tpos by (simp del: keep_divide; linarith)
  then show ?thesis
    using p(1) by blast
qed

lemma sum_component:
  assumes t: "1 / 2 ^ 100 \<le> t" "t \<le> 2 ^ 102"
    and p1: "\<bar>p1 - t * u\<bar> \<le> t / 2 ^ 36" and p2: "\<bar>p2 - t * v\<bar> \<le> t / 2 ^ 36"
    and w: "\<bar>u + v\<bar> \<le> 1"
  shows "\<exists>p. fl (p1 + p2) = Num p \<and> \<bar>p - t * (u + v)\<bar> \<le> t / 2 ^ 34"
proof -
  have tpos: "0 < t"
  proof -
    have "(0::real) < 1 / 2 ^ 100" by simp
    then show ?thesis using t(1) by linarith
  qed
  have e: "t * (u + v) = t * u + t * v"
    by (simp add: algebra_simps)
  have d: "\<bar>p1 + p2 - t * (u + v)\<bar> \<le> t / 2 ^ 35"
    unfolding e using p1 p2 tpos by (simp del: keep_divide; linarith)
  have "\<bar>t * (u + v)\<bar> \<le> t"
    using w tpos by (simp add: abs_mult)
  then have m: "\<bar>p1 + p2\<bar> \<le> 4 * t"
    using d tpos by (simp del: keep_divide; linarith)
  obtain p where p: "fl (p1 + p2) = Num p" "\<bar>p - (p1 + p2)\<bar> \<le> t / 2 ^ 50"
    using fl_scaled [OF m t] by blast
  have "\<bar>p - t * (u + v)\<bar> \<le> t / 2 ^ 34"
    using p(2) d tpos by (simp del: keep_divide; linarith)
  then show ?thesis
    using p(1) by blast
qed

lemma quotient_component:
  assumes t: "1 / 2 ^ 100 \<le> t" "t \<le> 2 ^ 102"
    and p: "\<bar>p - t * w\<bar> \<le> t / 2 ^ 34" and w: "\<bar>w\<bar> \<le> 1"
  shows "\<exists>q. jdiv (Num p) (Num t) = Num q \<and> \<bar>q - w\<bar> \<le> 1 / 2 ^ 33"
proof -
  have tpos: "0 < t"
  proof -
    have "(0::real) < 1 / 2 ^ 100" by simp
    then show ?thesis using t(1) by linarith
  qed
  have e: "p / t - w = (p - t * w) / t"
    using tpos by (simp add: field_simps)
  have "\<bar>p / t - w\<bar> = \<bar>p - t * w\<bar> / t"
    unfolding e by (simp only: abs_divide abs_of_pos [OF tpos])
  also have "\<dots> \<le> (t / 2 ^ 34) / t"
    by (rule divide_right_mono [OF p]) (use tpos in simp)
  also have "\<dots> = 1 / 2 ^ 34"
    using tpos by simp
  finally have d: "\<bar>p / t - w\<bar> \<le> 1 / 2 ^ 34" .
  then have m: "\<bar>p / t\<bar> \<le> 4 * 1"
    using w by (simp del: keep_divide; linarith)
  obtain q where q: "fl (p / t) = Num q" "\<bar>q - p / t\<bar> \<le> 1 / 2 ^ 50"
    using fl_scaled [OF m] by auto
  have "\<bar>q - w\<bar> \<le> 1 / 2 ^ 33"
    using q(2) d by (simp del: keep_divide; linarith)
  then show ?thesis
    using q(1) tpos by auto
qed

text \<open>Printing to two decimals moves a clamped quotient by at most 0.005.\<close>

lemma toFixed2_close:
  assumes q: "\<bar>q - w\<bar> \<le> 1 / 2 ^ 33" and w: "\<bar>w\<bar> \<le> 1"
  shows "\<exists>x'. toFixed2 (Math_max (Num (- 1)) (Math_min (Num 1) (Num q))) = Num x'
           \<and> \<bar>x' - w\<bar> \<le> 501 / 100000"
proof -
  define v where "v = max (- 1) (min 1 q)"
  define d where "d = (if v < 0 then - (real_of_int \<lfloor>(- v) * 100 + 1 / 2\<rfloor> / 100)
                       else real_of_int \<lfloor>v * 100 + 1 / 2\<rfloor> / 100)"
  have v1: "\<bar>v\<bar> \<le> 1"
    by (simp add: v_def abs_le_iff)
  have vw: "\<bar>v - w\<bar> \<le> 1 / 2 ^ 33"
    using q w unfolding v_def by (simp del: keep_divide; linarith)
  have dv: "\<bar>d - v\<bar> \<le> 1 / 200"
  proof (cases "v < 0")
    case True
    define F where "F = real_of_int \<lfloor>(- v) * 100 + 1 / 2\<rfloor>"
    have "F \<le> (- v) * 100 + 1 / 2" "(- v) * 100 + 1 / 2 < F + 1"
      unfolding F_def using floor_correct [of "(- v) * 100 + 1 / 2"] by simp_all
    moreover have "d = - (F / 100)"
      using True by (simp add: d_def F_def)
    ultimately show ?thesis
      by linarith
  next
    case False
    define F where "F = real_of_int \<lfloor>v * 100 + 1 / 2\<rfloor>"
    have "F \<le> v * 100 + 1 / 2" "v * 100 + 1 / 2 < F + 1"
      unfolding F_def using floor_correct [of "v * 100 + 1 / 2"] by simp_all
    moreover have "d = F / 100"
      using False by (simp add: d_def F_def)
    ultimately show ?thesis
      by linarith
  qed
  have d1: "\<bar>d\<bar> \<le> 4 * 1"
    using dv v1 by linarith
  obtain x' where x': "fl d = Num x'" "\<bar>x' - d\<bar> \<le> 1 / 2 ^ 50"
    using fl_scaled [OF d1] by auto
  have "\<bar>x' - w\<bar> \<le> 501 / 100000"
    using x'(2) dv vw by (simp del: keep_divide; linarith)
  moreover have "toFixed2 (Math_max (Num (- 1)) (Math_min (Num 1) (Num q))) = Num x'"
  proof -
    have "\<not> 10 ^ 21 \<le> \<bar>v\<bar>"
      using v1 by simp
    then show ?thesis
      using x'(1) by (simp add: clamp_cases v_def [symmetric] d_def [symmetric])
  qed
  ultimately show ?thesis
    by blast
qed

lemma near_unit_vector:
  fixes x y u v :: real
  assumes "u\<^sup>2 + v\<^sup>2 = 1" and "\<bar>x - u\<bar> \<le> 501 / 100000" and "\<bar>y - v\<bar> \<le> 501 / 100000"
  shows "sqrt (x\<^sup>2 + y\<^sup>2) \<le> 1 + 1 / 100"
proof -
  have "sqrt ((u + (x - u))\<^sup>2 + (v + (y - v))\<^sup>2)
        \<le> sqrt (u\<^sup>2 + v\<^sup>2) + sqrt ((x - u)\<^sup>2 + (y - v)\<^sup>2)"
    by (rule real_sqrt_sum_squares_triangle_ineq)
  moreover have "sqrt ((x - u)\<^sup>2 + (y - v)\<^sup>2) \<le> 1 / 100"
  proof -
    have "\<bar>x - u\<bar> \<le> \<bar>501 / 100000 :: real\<bar>" "\<bar>y - v\<bar> \<le> \<bar>501 / 100000 :: real\<bar>"
      using assms(2,3) by simp_all
    then have "(x - u)\<^sup>2 \<le> (501 / 100000)\<^sup>2" "(y - v)\<^sup>2 \<le> (501 / 100000)\<^sup>2"
      by (simp_all only: abs_le_square_iff)
    then have "(x - u)\<^sup>2 + (y - v)\<^sup>2 \<le> (1 / 100)\<^sup>2"
      by (simp add: power2_eq_square)
    then show ?thesis
      using real_le_lsqrt [of "1 / 100" "(x - u)\<^sup>2 + (y - v)\<^sup>2"] by simp
  qed
  ultimately show ?thesis
    using assms(1) by simp
qed

lemma rotation_norm:
  fixes a b c s :: real
  shows "(a * c - b * s)\<^sup>2 + (a * s + b * c)\<^sup>2 = (a\<^sup>2 + b\<^sup>2) * (c\<^sup>2 + s\<^sup>2)"
  by (simp add: power2_eq_square algebra_simps)

lemma unit_rotation:
  fixes X Y h A :: real
  assumes h: "h = sqrt (X\<^sup>2 + Y\<^sup>2)" and hpos: "0 < h"
  shows "((X / h) * cos A - (Y / h) * sin A)\<^sup>2 + ((X / h) * sin A + (Y / h) * cos A)\<^sup>2 = 1"
proof -
  have h2: "h\<^sup>2 = X\<^sup>2 + Y\<^sup>2"
    unfolding h by simp
  have "((X / h) * cos A - (Y / h) * sin A)\<^sup>2 + ((X / h) * sin A + (Y / h) * cos A)\<^sup>2
        = ((X / h)\<^sup>2 + (Y / h)\<^sup>2) * ((cos A)\<^sup>2 + (sin A)\<^sup>2)"
    by (rule rotation_norm)
  also have "\<dots> = (X\<^sup>2 + Y\<^sup>2) / h\<^sup>2"
    by (simp add: power_divide add_divide_distrib)
  also have "\<dots> = 1"
    using hpos by (simp add: h2 [symmetric])
  finally show ?thesis .
qed

lemma unit_component:
  fixes u v :: real
  assumes "u\<^sup>2 + v\<^sup>2 = 1"
  shows "\<bar>u\<bar> \<le> 1" and "\<bar>v\<bar> \<le> 1"
proof -
  have "u\<^sup>2 \<le> 1" "v\<^sup>2 \<le> 1"
    using assms zero_le_power2 [of u] zero_le_power2 [of v] by linarith+
  then show "\<bar>u\<bar> \<le> 1" "\<bar>v\<bar> \<le> 1"
    by (simp_all only: abs_square_le_1)
qed

lemma unit_rotation_quotient:
  fixes X Y A :: real
  assumes "0 < sqrt (X\<^sup>2 + Y\<^sup>2)"
  shows "((X * cos A - Y * sin A) / sqrt (X\<^sup>2 + Y\<^sup>2))\<^sup>2
         + ((X * sin A + Y * cos A) / sqrt (X\<^sup>2 + Y\<^sup>2))\<^sup>2 = 1"
  using unit_rotation [OF refl assms, of A]
  by (simp only: diff_divide_distrib add_divide_distrib times_divide_eq_left)

text \<open>
  The quotients \<^verbatim>\<open>x / thumbMaxDistance\<close> and \<^verbatim>\<open>y / thumbMaxDistance\<close> of a displacement
  beyond the disc, as the doubles \<^verbatim>\<open>onJoysickMove\<close> computes: each is within \<open>2\<^sup>-\<^sup>3\<^sup>3\<close> of
  the component of the unit vector of the displacement, turned by the angle \<open>A\<close>.
\<close>

lemma joystick_quotients:
  assumes t: "1 / 2 ^ 100 \<le> t" and X: "\<bar>X\<bar> \<le> 2 ^ 100" and Y: "\<bar>Y\<bar> \<le> 2 ^ 100"
    and tD: "t < D"
    and D: "\<bar>D - sqrt (X\<^sup>2 + Y\<^sup>2)\<bar> \<le> sqrt (X\<^sup>2 + Y\<^sup>2) / 2 ^ 40"
    and rot: "if rotated then \<bar>C - cos A\<bar> \<le> 1 / 2 ^ 40 \<and> \<bar>S - sin A\<bar> \<le> 1 / 2 ^ 40 else A = 0"
  shows "\<exists>qx qy.
           jdiv (if rotated
                 then jsub (jmul (jmul (Num X) (jdiv (Num t) (Num D))) (Num C))
                           (jmul (jmul (Num Y) (jdiv (Num t) (Num D))) (Num S))
                 else jmul (Num X) (jdiv (Num t) (Num D))) (Num t) = Num qx
         \<and> jdiv (if rotated
                 then jadd (jmul (jmul (Num X) (jdiv (Num t) (Num D))) (Num S))
                           (jmul (jmul (Num Y) (jdiv (Num t) (Num D))) (Num C))
                 else jmul (Num Y) (jdiv (Num t) (Num D))) (Num t) = Num qy
         \<and> \<bar>qx - (X * cos A - Y * sin A) / sqrt (X\<^sup>2 + Y\<^sup>2)\<bar> \<le> 1 / 2 ^ 33
         \<and> \<bar>qy - (X * sin A + Y * cos A) / sqrt (X\<^sup>2 + Y\<^sup>2)\<bar> \<le> 1 / 2 ^ 33"
proof -
  define h where "h = sqrt (X\<^sup>2 + Y\<^sup>2)"
  define a where "a = X / h"
  define b where "b = Y / h"
  define wx where "wx = a * cos A - b * sin A"
  define wy where "wy = a * sin A + b * cos A"
  have tpos: "0 < t"
  proof -
    have "(0::real) < 1 / 2 ^ 100" by simp
    then show ?thesis using t by linarith
  qed
  have D': "\<bar>D - h\<bar> \<le> h / 2 ^ 40"
    using D by (simp only: h_def)
  note hr = hypot_ratio [OF h_def tpos tD D']
  have hpos: "0 < h" by (rule hr(1))
  have t102: "t \<le> 2 ^ 102"
  proof -
    have "h \<le> \<bar>X\<bar> + \<bar>Y\<bar>"
      unfolding h_def by (rule sqrt_sum_squares_le_sum_abs)
    then have "h \<le> 2 ^ 101"
      using X Y by simp
    moreover have "D \<le> 2 * h"
      using D' hpos by (simp del: keep_divide; linarith)
    ultimately show ?thesis
      using tD by simp
  qed
  have X2: "\<bar>X\<bar> \<le> 2 * D" and Y2: "\<bar>Y\<bar> \<le> 2 * D"
    using hr(2,3,4) by linarith+
  obtain sx where sx: "jmul (Num X) (jdiv (Num t) (Num D)) = Num sx" "\<bar>sx - t * a\<bar> \<le> t / 2 ^ 38"
    using scale_component [OF t t102 tD X X2 hr(5)] unfolding a_def by blast
  obtain sy where sy: "jmul (Num Y) (jdiv (Num t) (Num D)) = Num sy" "\<bar>sy - t * b\<bar> \<le> t / 2 ^ 38"
    using scale_component [OF t t102 tD Y Y2 hr(6)] unfolding b_def by blast
  have a1: "\<bar>a\<bar> \<le> 1" and b1: "\<bar>b\<bar> \<le> 1"
    using hr(2,3) hpos by (simp_all add: a_def b_def abs_divide)
  have unit: "wx\<^sup>2 + wy\<^sup>2 = 1"
    unfolding wx_def wy_def a_def b_def by (rule unit_rotation [OF h_def hpos])
  note w1 = unit_component [OF unit]
  have "\<exists>px py. (if rotated then jsub (jmul (Num sx) (Num C)) (jmul (Num sy) (Num S)) else Num sx)
                   = Num px
                \<and> (if rotated then jadd (jmul (Num sx) (Num S)) (jmul (Num sy) (Num C)) else Num sy)
                   = Num py
                \<and> \<bar>px - t * wx\<bar> \<le> t / 2 ^ 34 \<and> \<bar>py - t * wy\<bar> \<le> t / 2 ^ 34"
  proof (cases rotated)
    case True
    then have C: "\<bar>C - cos A\<bar> \<le> 1 / 2 ^ 40" and S: "\<bar>S - sin A\<bar> \<le> 1 / 2 ^ 40"
      using rot by simp_all
    have c1: "\<bar>cos A\<bar> \<le> 1" and s1: "\<bar>sin A\<bar> \<le> 1"
      by simp_all
    obtain p1 where p1: "fl (sx * C) = Num p1" "\<bar>p1 - t * (a * cos A)\<bar> \<le> t / 2 ^ 36"
      using product_component [OF t t102 sx(2) a1 c1 C] by blast
    obtain p2 where p2: "fl (sy * S) = Num p2" "\<bar>p2 - t * (b * sin A)\<bar> \<le> t / 2 ^ 36"
      using product_component [OF t t102 sy(2) b1 s1 S] by blast
    obtain q1 where q1: "fl (sx * S) = Num q1" "\<bar>q1 - t * (a * sin A)\<bar> \<le> t / 2 ^ 36"
      using product_component [OF t t102 sx(2) a1 s1 S] by blast
    obtain q2 where q2: "fl (sy * C) = Num q2" "\<bar>q2 - t * (b * cos A)\<bar> \<le> t / 2 ^ 36"
      using product_component [OF t t102 sy(2) b1 c1 C] by blast
    have p2': "\<bar>- p2 - t * (- (b * sin A))\<bar> \<le> t / 2 ^ 36"
      using p2(2) by (simp del: keep_divide; linarith)
    have wx': "\<bar>a * cos A + - (b * sin A)\<bar> \<le> 1"
      using w1(1) by (simp add: wx_def)
    have wy': "\<bar>a * sin A + b * cos A\<bar> \<le> 1"
      using w1(2) by (simp add: wy_def)
    obtain px where px: "fl (p1 + - p2) = Num px"
        "\<bar>px - t * (a * cos A + - (b * sin A))\<bar> \<le> t / 2 ^ 34"
      using sum_component [OF t t102 p1(2) p2' wx'] by blast
    obtain py where py: "fl (q1 + q2) = Num py"
        "\<bar>py - t * (a * sin A + b * cos A)\<bar> \<le> t / 2 ^ 34"
      using sum_component [OF t t102 q1(2) q2(2) wy'] by blast
    have "jsub (jmul (Num sx) (Num C)) (jmul (Num sy) (Num S)) = Num px"
      using p1(1) p2(1) px(1) by (simp add: jsub_def)
    moreover have "jadd (jmul (Num sx) (Num S)) (jmul (Num sy) (Num C)) = Num py"
      using q1(1) q2(1) py(1) by simp
    moreover have "\<bar>px - t * wx\<bar> \<le> t / 2 ^ 34"
      using px(2) by (simp only: wx_def diff_conv_add_uminus)
    moreover have "\<bar>py - t * wy\<bar> \<le> t / 2 ^ 34"
      using py(2) by (simp only: wy_def)
    ultimately show ?thesis
      using True by simp
  next
    case False
    then have "A = 0"
      using rot by simp
    then have "wx = a" "wy = b"
      by (simp_all add: wx_def wy_def)
    moreover have "\<bar>sx - t * a\<bar> \<le> t / 2 ^ 34"
      using sx(2) tpos by (simp del: keep_divide; linarith)
    moreover have "\<bar>sy - t * b\<bar> \<le> t / 2 ^ 34"
      using sy(2) tpos by (simp del: keep_divide; linarith)
    ultimately show ?thesis
      using False by simp
  qed
  then obtain px py where
    px: "(if rotated then jsub (jmul (Num sx) (Num C)) (jmul (Num sy) (Num S)) else Num sx) = Num px"
    and py: "(if rotated then jadd (jmul (Num sx) (Num S)) (jmul (Num sy) (Num C)) else Num sy) = Num py"
    and pxe: "\<bar>px - t * wx\<bar> \<le> t / 2 ^ 34" and pye: "\<bar>py - t * wy\<bar> \<le> t / 2 ^ 34"
    by blast
  obtain qx where qx: "jdiv (Num px) (Num t) = Num qx" "\<bar>qx - wx\<bar> \<le> 1 / 2 ^ 33"
    using quotient_component [OF t t102 pxe w1(1)] by blast
  obtain qy where qy: "jdiv (Num py) (Num t) = Num qy" "\<bar>qy - wy\<bar> \<le> 1 / 2 ^ 33"
    using quotient_component [OF t t102 pye w1(2)] by blast
  have wxe: "wx = (X * cos A - Y * sin A) / sqrt (X\<^sup>2 + Y\<^sup>2)"
    by (simp add: wx_def a_def b_def h_def diff_divide_distrib)
  have wye: "wy = (X * sin A + Y * cos A) / sqrt (X\<^sup>2 + Y\<^sup>2)"
    by (simp add: wy_def a_def b_def h_def add_divide_distrib)
  have "jdiv (if rotated
                 then jsub (jmul (jmul (Num X) (jdiv (Num t) (Num D))) (Num C))
                           (jmul (jmul (Num Y) (jdiv (Num t) (Num D))) (Num S))
                 else jmul (Num X) (jdiv (Num t) (Num D))) (Num t) = Num qx"
    unfolding sx(1) sy(1) px by (rule qx(1))
  moreover have "jdiv (if rotated
                 then jadd (jmul (jmul (Num X) (jdiv (Num t) (Num D))) (Num S))
                           (jmul (jmul (Num Y) (jdiv (Num t) (Num D))) (Num C))
                 else jmul (Num Y) (jdiv (Num t) (Num D))) (Num t) = Num qy"
    unfolding sx(1) sy(1) py by (rule qy(1))
  ultimately show ?thesis
    using qx(2) qy(2) unfolding wxe wye by blast
qed

lemma joystick_move_beyond:
  assumes pressed: "isPressed_J s" and rect: "baseRect_J s = Some r"
    and off: "pointerOffset r e = (Num X, Num Y)"
    and tmd: "thumbMaxDistance_J s = Num t"
    and dist: "Math_hypot M (Num X) (Num Y) = Num D"
    and t: "1 / 2 ^ 100 \<le> t" and X: "\<bar>X\<bar> \<le> 2 ^ 100" and Y: "\<bar>Y\<bar> \<le> 2 ^ 100"
    and tD: "t < D"
    and D: "\<bar>D - sqrt (X\<^sup>2 + Y\<^sup>2)\<bar> \<le> sqrt (X\<^sup>2 + Y\<^sup>2) / 2 ^ 40"
    and rot: "if rotate_J s \<noteq> 0
              then jdiv (jmul (Num (- rotate_J s)) (Num Math_PI)) (Num 180) = Num A
                   \<and> Math_cos M (Num A) = Num C \<and> \<bar>C - cos A\<bar> \<le> 1 / 2 ^ 40
                   \<and> Math_sin M (Num A) = Num S \<and> \<bar>S - sin A\<bar> \<le> 1 / 2 ^ 40
              else A = 0"
  shows "\<exists>qx qy.
           map_sum id calls_J (onJoysickMove M lay e s)
             = Inr (calls_J s @
                 [(onInputCallback_J s,
                   toFixed2 (Math_max (Num (- 1)) (Math_min (Num 1) (Num qx))),
                   toFixed2 (Math_max (Num (- 1)) (Math_min (Num 1) (Num qy))))])
         \<and> \<bar>qx - (X * cos A - Y * sin A) / sqrt (X\<^sup>2 + Y\<^sup>2)\<bar> \<le> 1 / 2 ^ 33
         \<and> \<bar>qy - (X * sin A + Y * cos A) / sqrt (X\<^sup>2 + Y\<^sup>2)\<bar> \<le> 1 / 2 ^ 33"
proof -
  have rot': "if rotate_J s \<noteq> 0
              then \<bar>C - cos A\<bar> \<le> 1 / 2 ^ 40 \<and> \<bar>S - sin A\<bar> \<le> 1 / 2 ^ 40 else A = 0"
    using rot by (simp split: if_splits)
  obtain qx qy where
    qx: "jdiv (if rotate_J s \<noteq> 0
               then jsub (jmul (jmul (Num X) (jdiv (Num t) (Num D))) (Num C))
                         (jmul (jmul (Num Y) (jdiv (Num t) (Num D))) (Num S))
               else jmul (Num X) (jdiv (Num t) (Num D))) (Num t) = Num qx"
    and qy: "jdiv (if rotate_J s \<noteq> 0
               then jadd (jmul (jmul (Num X) (jdiv (Num t) (Num D))) (Num S))
                         (jmul (jmul (Num Y) (jdiv (Num t) (Num D))) (Num C))
               else jmul (Num Y) (jdiv (Num t) (Num D))) (Num t) = Num qy"
    and qxe: "\<bar>qx - (X * cos A - Y * sin A) / sqrt (X\<^sup>2 + Y\<^sup>2)\<bar> \<le> 1 / 2 ^ 33"
    and qye: "\<bar>qy - (X * sin A + Y * cos A) / sqrt (X\<^sup>2 + Y\<^sup>2)\<bar> \<le> 1 / 2 ^ 33"
    using joystick_quotients [OF t X Y tD D rot'] by blast
  have beyond: "jgt (Num D) (Num t)"
    using tD by (simp add: jgt_def)
  have "map_sum id calls_J (onJoysickMove M lay e s)
             = Inr (calls_J s @
                 [(onInputCallback_J s,
                   toFixed2 (Math_max (Num (- 1)) (Math_min (Num 1) (Num qx))),
                   toFixed2 (Math_max (Num (- 1)) (Math_min (Num 1) (Num qy))))])"
  proof (cases "rotate_J s \<noteq> 0")
    case True
    then have a: "jdiv (jmul (Num (- rotate_J s)) (Num Math_PI)) (Num 180) = Num A"
      and c: "Math_cos M (Num A) = Num C" and s: "Math_sin M (Num A) = Num S"
      using rot by simp_all
    have qx': "jdiv (jsub (jmul (jmul (Num X) (jdiv (Num t) (Num D))) (Num C))
                         (jmul (jmul (Num Y) (jdiv (Num t) (Num D))) (Num S))) (Num t) = Num qx"
      using qx True by (simp only: if_True if_False not_False_eq_True not_True_eq_False)
    have qy': "jdiv (jadd (jmul (jmul (Num X) (jdiv (Num t) (Num D))) (Num S))
                         (jmul (jmul (Num Y) (jdiv (Num t) (Num D))) (Num C))) (Num t) = Num qy"
      using qy True by (simp only: if_True if_False not_False_eq_True not_True_eq_False)
    show ?thesis
      using pressed True
      by (simp only: onJoysickMove_def joystickThumbOffset_def rotateBack_def normalizeAxis_def
            Let_def rect off tmd dist beyond a c s qx' qy' fst_conv snd_conv if_True if_False
            not_True_eq_False not_False_eq_True option.case map_sum.simps id_apply
            JoysickController.simps) simp
  next
    case False
    have qx': "jdiv (jmul (Num X) (jdiv (Num t) (Num D))) (Num t) = Num qx"
      using qx False by (simp only: if_True if_False not_False_eq_True not_True_eq_False)
    have qy': "jdiv (jmul (Num Y) (jdiv (Num t) (Num D))) (Num t) = Num qy"
      using qy False by (simp only: if_True if_False not_False_eq_True not_True_eq_False)
    show ?thesis
      using pressed False
      by (simp only: onJoysickMove_def joystickThumbOffset_def rotateBack_def normalizeAxis_def
            Let_def rect off tmd dist beyond qx' qy' fst_conv snd_conv if_True if_False
            not_True_eq_False not_False_eq_True option.case map_sum.simps id_apply
            JoysickController.simps) simp
  qed
  then show ?thesis
    using qxe qye by blast
qed

text \<open>
  C2, as amended. While the joystick is pressed, every move invokes the input
  callback once with the pair \<open>(x, y)\<close> in which each component is
  \<^verbatim>\<open>Number(Math.max(-1, Math.min(1, d / thumbMaxDistance)).toFixed(2))\<close> in doubles, \<open>d\<close>
  being the component of the displacement after the scaling onto the disc and the
  reverse rotation. When the raw displacement \<open>(X, Y)\<close> is longer than
  \<^verbatim>\<open>thumbMaxDistance\<close>, all of it within \<open>2\<^sup>-\<^sup>1\<^sup>0\<^sup>0\<close> and \<open>2\<^sup>1\<^sup>0\<^sup>0\<close>, and the library's
  \<^verbatim>\<open>Math.hypot\<close>, \<^verbatim>\<open>Math.cos\<close> and \<^verbatim>\<open>Math.sin\<close> are accurate to \<open>2\<^sup>-\<^sup>4\<^sup>0\<close> at these
  arguments, then \<open>x\<close> and \<open>y\<close> are finite, the pair has length at most 1.01 and each
  component is within 0.00501 of the unit vector of \<open>(X, Y)\<close> turned by the angle \<open>A\<close>,
  the double \<^verbatim>\<open>(-rotate * Math.PI) / 180\<close>; without rotation \<open>A\<close> is 0 and that is the
  unit vector of \<open>(X, Y)\<close> itself.
\<close>

theorem joystick_move_output:
  assumes "isPressed_J s" and "baseRect_J s = Some r"
    and "cx = jadd (Num (rect_left r)) (jdiv (Num (rect_width r)) (Num 2))"
    and "cy = jadd (Num (rect_top r)) (jdiv (Num (rect_height r)) (Num 2))"
    and "dx = jsub (Num (clientX e)) cx" and "dy = jsub (Num (clientY e)) cy"
    and "distance = Math_hypot M dx dy"
    and "tmd = thumbMaxDistance_J s"
    and "sx = (if jgt distance tmd then jmul dx (jdiv tmd distance) else dx)"
    and "sy = (if jgt distance tmd then jmul dy (jdiv tmd distance) else dy)"
    and "a0 = jdiv (jmul (Num (- rotate_J s)) (Num Math_PI)) (Num 180)"
    and "px = (if rotate_J s \<noteq> 0
               then jsub (jmul sx (Math_cos M a0)) (jmul sy (Math_sin M a0)) else sx)"
    and "py = (if rotate_J s \<noteq> 0
               then jadd (jmul sx (Math_sin M a0)) (jmul sy (Math_cos M a0)) else sy)"
    and "x = toFixed2 (Math_max (Num (- 1)) (Math_min (Num 1) (jdiv px tmd)))"
    and "y = toFixed2 (Math_max (Num (- 1)) (Math_min (Num 1) (jdiv py tmd)))"
  shows "map_sum id calls_J (onJoysickMove M lay e s)
           = Inr (calls_J s @ [(onInputCallback_J s, x, y)])
       \<and> (tmd = Num t \<and> 1 / 2 ^ 100 \<le> t
          \<and> dx = Num X \<and> dy = Num Y \<and> \<bar>X\<bar> \<le> 2 ^ 100 \<and> \<bar>Y\<bar> \<le> 2 ^ 100
          \<and> distance = Num D \<and> t < D
          \<and> \<bar>D - sqrt (X\<^sup>2 + Y\<^sup>2)\<bar> \<le> sqrt (X\<^sup>2 + Y\<^sup>2) / 2 ^ 40
          \<and> (if rotate_J s \<noteq> 0
              then a0 = Num A
                   \<and> Math_cos M a0 = Num C \<and> \<bar>C - cos A\<bar> \<le> 1 / 2 ^ 40
                   \<and> Math_sin M a0 = Num S \<and> \<bar>S - sin A\<bar> \<le> 1 / 2 ^ 40
              else A = 0)
          \<longrightarrow> (\<exists>x' y'. x = Num x' \<and> y = Num y'
                 \<and> sqrt (x'\<^sup>2 + y'\<^sup>2) \<le> 1 + 1 / 100
                 \<and> \<bar>x' - (X * cos A - Y * sin A) / sqrt (X\<^sup>2 + Y\<^sup>2)\<bar> \<le> 501 / 100000
                 \<and> \<bar>y' - (X * sin A + Y * cos A) / sqrt (X\<^sup>2 + Y\<^sup>2)\<bar> \<le> 501 / 100000))"
proof (intro conjI impI)
  show payload: "map_sum id calls_J (onJoysickMove M lay e s)
           = Inr (calls_J s @ [(onInputCallback_J s, x, y)])"
    by (rule onJoysickMove_payload(1) [OF assms])
  assume H: "tmd = Num t \<and> 1 / 2 ^ 100 \<le> t
          \<and> dx = Num X \<and> dy = Num Y \<and> \<bar>X\<bar> \<le> 2 ^ 100 \<and> \<bar>Y\<bar> \<le> 2 ^ 100
          \<and> distance = Num D \<and> t < D
          \<and> \<bar>D - sqrt (X\<^sup>2 + Y\<^sup>2)\<bar> \<le> sqrt (X\<^sup>2 + Y\<^sup>2) / 2 ^ 40
          \<and> (if rotate_J s \<noteq> 0
              then a0 = Num A
                   \<and> Math_cos M a0 = Num C \<and> \<bar>C - cos A\<bar> \<le> 1 / 2 ^ 40
                   \<and> Math_sin M a0 = Num S \<and> \<bar>S - sin A\<bar> \<le> 1 / 2 ^ 40
              else A = 0)"
  then have tmd: "thumbMaxDistance_J s = Num t" and t: "1 / 2 ^ 100 \<le> t"
    and dx: "dx = Num X" and dy: "dy = Num Y"
    and X: "\<bar>X\<bar> \<le> 2 ^ 100" and Y: "\<bar>Y\<bar> \<le> 2 ^ 100"
    and tD: "t < D"
    and D: "\<bar>D - sqrt (X\<^sup>2 + Y\<^sup>2)\<bar> \<le> sqrt (X\<^sup>2 + Y\<^sup>2) / 2 ^ 40"
    using assms(8) by simp_all
  have "distance = Num D"
    using H by blast
  then have dist: "Math_hypot M (Num X) (Num Y) = Num D"
    unfolding assms(7) dx dy .
  have off: "pointerOffset r e = (Num X, Num Y)"
    using dx dy unfolding assms(3-6) by (simp add: pointerOffset_def)
  have rot: "if rotate_J s \<noteq> 0
              then jdiv (jmul (Num (- rotate_J s)) (Num Math_PI)) (Num 180) = Num A
                   \<and> Math_cos M (Num A) = Num C \<and> \<bar>C - cos A\<bar> \<le> 1 / 2 ^ 40
                   \<and> Math_sin M (Num A) = Num S \<and> \<bar>S - sin A\<bar> \<le> 1 / 2 ^ 40
              else A = 0"
  proof (cases "rotate_J s \<noteq> 0")
    case True
    with H have R: "a0 = Num A" "Math_cos M a0 = Num C" "\<bar>C - cos A\<bar> \<le> 1 / 2 ^ 40"
      "Math_sin M a0 = Num S" "\<bar>S - sin A\<bar> \<le> 1 / 2 ^ 40"
      by auto
    have "jdiv (jmul (Num (- rotate_J s)) (Num Math_PI)) (Num 180) = Num A"
      using R(1) unfolding assms(11) .
    moreover have "Math_cos M (Num A) = Num C"
      using R(2) unfolding R(1) .
    moreover have "Math_sin M (Num A) = Num S"
      using R(4) unfolding R(1) .
    ultimately show ?thesis
      using True R(3,5) by simp
  next
    case False
    then show ?thesis
      using H by simp
  qed
  obtain qx qy where
    calls: "map_sum id calls_J (onJoysickMove M lay e s)
             = Inr (calls_J s @
                 [(onInputCallback_J s,
                   toFixed2 (Math_max (Num (- 1)) (Math_min (Num 1) (Num qx))),
                   toFixed2 (Math_max (Num (- 1)) (Math_min (Num 1) (Num qy))))])"
    and qx: "\<bar>qx - (X * cos A - Y * sin A) / sqrt (X\<^sup>2 + Y\<^sup>2)\<bar> \<le> 1 / 2 ^ 33"
    and qy: "\<bar>qy - (X * sin A + Y * cos A) / sqrt (X\<^sup>2 + Y\<^sup>2)\<bar> \<le> 1 / 2 ^ 33"
    using joystick_move_beyond [OF assms(1,2) off tmd dist t X Y tD D rot] by blast
  have xy: "x = toFixed2 (Math_max (Num (- 1)) (Math_min (Num 1) (Num qx)))"
    "y = toFixed2 (Math_max (Num (- 1)) (Math_min (Num 1) (Num qy)))"
    using calls payload by simp_all
  have tpos: "0 < t"
  proof -
    have "(0::real) < 1 / 2 ^ 100" by simp
    then show ?thesis using t by linarith
  qed
  have hpos: "0 < sqrt (X\<^sup>2 + Y\<^sup>2)"
    by (rule hypot_ratio(1) [OF refl tpos tD D])
  note unit = unit_rotation_quotient [OF hpos, of A]
  note u1 = unit_component [OF unit]
  obtain x' where x': "toFixed2 (Math_max (Num (- 1)) (Math_min (Num 1) (Num qx))) = Num x'"
    "\<bar>x' - (X * cos A - Y * sin A) / sqrt (X\<^sup>2 + Y\<^sup>2)\<bar> \<le> 501 / 100000"
    using toFixed2_close [OF qx u1(1)] by blast
  obtain y' where y': "toFixed2 (Math_max (Num (- 1)) (Math_min (Num 1) (Num qy))) = Num y'"
    "\<bar>y' - (X * sin A + Y * cos A) / sqrt (X\<^sup>2 + Y\<^sup>2)\<bar> \<le> 501 / 100000"
    using toFixed2_close [OF qy u1(2)] by blast
  have "sqrt (x'\<^sup>2 + y'\<^sup>2) \<le> 1 + 1 / 100"
    by (rule near_unit_vector [OF unit x'(2) y'(2)])
  then show "\<exists>x' y'. x = Num x' \<and> y = Num y'
                 \<and> sqrt (x'\<^sup>2 + y'\<^sup>2) \<le> 1 + 1 / 100
                 \<and> \<bar>x' - (X * cos A - Y * sin A) / sqrt (X\<^sup>2 + Y\<^sup>2)\<bar> \<le> 501 / 100000
                 \<and> \<bar>y' - (X * sin A + Y * cos A) / sqrt (X\<^sup>2 + Y\<^sup>2)\<bar> \<le> 501 / 100000"
    using xy x' y' by blast
qed

text \<open>
  An instance: \<^verbatim>\<open>thumbMaxDistance = 40\<close>, no rotation, the pointer 200 pixels right of
  the centre. The scale factor is the double of 0.2, its product with 200 rounds to
  40, and the pair reported is \<open>(1, 0)\<close>.
\<close>

lemma fl_fifth: "fl (1 / 5) = Num (3602879701896397 / 18014398509481984)"
proof -
  have "fl (1 / 5) = Num (2 powr (real_of_int (- 3) - 52) * real_of_int 7205759403792794)"
    by (rule fl_eval) (simp_all add: powr_minus_divide powr_numeral)
  then show ?thesis
    by (simp add: powr_minus_divide powr_numeral)
qed

lemma fl_fifth_of_200: "fl (90071992547409925 / 2251799813685248) = Num 40"
proof -
  have "fl (90071992547409925 / 2251799813685248)
        = Num (2 powr (real_of_int 5 - 52) * real_of_int 5629499534213120)"
    by (rule fl_eval) (simp_all add: powr_minus_divide powr_numeral)
  then show ?thesis
    by (simp add: powr_minus_divide powr_numeral)
qed

theorem joystick_move_output_witness:
  "isPressed_J
     ((JoysickController
         \<lparr> boundingClientRect =
             \<lparr> rect_left = 0, rect_top = 0, rect_width = 100, rect_height = 100 \<rparr>,
           thumbOffsetWidth = 40 \<rparr>
         \<lparr> rotate_JO = None, radius_JO = Some 100, onInputCallback_JO = Some ''input'' \<rparr>)
      \<lparr> isPressed_J := True \<rparr>)
   \<and> thumbMaxDistance_J
     ((JoysickController
         \<lparr> boundingClientRect =
             \<lparr> rect_left = 0, rect_top = 0, rect_width = 100, rect_height = 100 \<rparr>,
           thumbOffsetWidth = 40 \<rparr>
         \<lparr> rotate_JO = None, radius_JO = Some 100, onInputCallback_JO = Some ''input'' \<rparr>)
      \<lparr> isPressed_J := True \<rparr>) = Num 40
   \<and> pointerOffset \<lparr> rect_left = 0, rect_top = 0, rect_width = 100, rect_height = 100 \<rparr>
       \<lparr> pointerId = 7, clientX = 250, clientY = 50 \<rparr> = (Num 200, Num 0)
   \<and> Math_hypot libm (Num 200) (Num 0) = Num 200
   \<and> map_sum id calls_J
     (onJoysickMove libm
        \<lparr> boundingClientRect =
            \<lparr> rect_left = 0, rect_top = 0, rect_width = 100, rect_height = 100 \<rparr>,
          thumbOffsetWidth = 40 \<rparr>
        \<lparr> pointerId = 7, clientX = 250, clientY = 50 \<rparr>
        ((JoysickController
            \<lparr> boundingClientRect =
                \<lparr> rect_left = 0, rect_top = 0, rect_width = 100, rect_height = 100 \<rparr>,
              thumbOffsetWidth = 40 \<rparr>
            \<lparr> rotate_JO = None, radius_JO = Some 100, onInputCallback_JO = Some ''input'' \<rparr>)
         \<lparr> isPressed_J := True \<rparr>))
   = Inr [(Supplied ''input'', Num 1, Num 0)]"
  using joystick_move_output
    [where M = libm
       and r = "\<lparr> rect_left = 0, rect_top = 0, rect_width = 100, rect_height = 100 \<rparr>"
       and e = "\<lparr> pointerId = 7, clientX = 250, clientY = 50 \<rparr>"
       and lay = "\<lparr> boundingClientRect =
            \<lparr> rect_left = 0, rect_top = 0, rect_width = 100, rect_height = 100 \<rparr>,
          thumbOffsetWidth = 40 \<rparr>"
       and s = "(JoysickController
            \<lparr> boundingClientRect =
                \<lparr> rect_left = 0, rect_top = 0, rect_width = 100, rect_height = 100 \<rparr>,
              thumbOffsetWidth = 40 \<rparr>
            \<lparr> rotate_JO = None, radius_JO = Some 100, onInputCallback_JO = Some ''input'' \<rparr>)
         \<lparr> isPressed_J := True \<rparr>"
       and t = 40 and X = 200 and Y = 0 and D = 200 and A = 0 and C = 1 and S = 0,
     OF _ _ refl refl refl refl refl refl refl refl refl refl refl refl refl]
  by (simp add: pointerOffset_def
        JoysickController_def updateContainerRectangle_J_def libm_def jsub_def jgt_def
        fl_numeral fl_zero fl_one fl_fifth fl_fifth_of_200 sqrt_40000 clamp_cases)

text \<open>
  Inside the disc the quotient is printed as it is. A displacement of \<open>(3, -7)\<close> with
  \<^verbatim>\<open>thumbMaxDistance = 40\<close>: the quotients are the doubles just below 0.075 and just
  above -0.175, so \<^verbatim>\<open>toFixed(2)\<close> prints 0.07 and -0.17, where the exact quotients
  would round to 0.08 and -0.18.
\<close>

lemma fl_3_40: "fl (3 / 40) = Num (5404319552844595 / 72057594037927936)"
proof -
  have "fl (3 / 40) = Num (2 powr (real_of_int (- 4) - 52) * real_of_int 5404319552844595)"
    by (rule fl_eval) (simp_all add: powr_minus_divide powr_numeral)
  then show ?thesis
    by (simp add: powr_minus_divide powr_numeral)
qed

lemma fl_7_100: "fl (7 / 100) = Num (1261007895663739 / 18014398509481984)"
proof -
  have "fl (7 / 100) = Num (2 powr (real_of_int (- 4) - 52) * real_of_int 5044031582654956)"
    by (rule fl_eval) (simp_all add: powr_minus_divide powr_numeral)
  then show ?thesis
    by (simp add: powr_minus_divide powr_numeral)
qed

lemma fl_minus_7_40: "fl (- (7 / 40)) = Num (- (3152519739159347 / 18014398509481984))"
proof -
  have "fl (- (7 / 40))
        = Num (2 powr (real_of_int (- 3) - 52) * real_of_int (- 6305039478318694))"
    by (rule fl_eval) (simp_all add: powr_minus_divide powr_numeral)
  then show ?thesis
    by (simp add: powr_minus_divide powr_numeral)
qed

lemma fl_minus_17_100: "fl (- (17 / 100)) = Num (- (6124895493223875 / 36028797018963968))"
proof -
  have "fl (- (17 / 100))
        = Num (2 powr (real_of_int (- 3) - 52) * real_of_int (- 6124895493223875))"
    by (rule fl_eval) (simp_all add: powr_minus_divide powr_numeral)
  then show ?thesis
    by (simp add: powr_minus_divide powr_numeral)
qed

lemma normalizeAxis_3_of_40:
  "normalizeAxis (Num 40) (Num 3) = Num (1261007895663739 / 18014398509481984)"
proof -
  have "\<lfloor>5404319552844595 / 72057594037927936 * 100 + 1 / 2 :: real\<rfloor> = 7"
    by (simp add: floor_eq_iff)
  then show ?thesis
    by (simp add: normalizeAxis_def fl_3_40 clamp_cases fl_7_100)
qed

lemma normalizeAxis_minus_7_of_40:
  "normalizeAxis (Num 40) (Num (- 7)) = Num (- (6124895493223875 / 36028797018963968))"
proof -
  have "\<lfloor>3152519739159347 / 18014398509481984 * 100 + 1 / 2 :: real\<rfloor> = 17"
    by (simp add: floor_eq_iff)
  then show ?thesis
    by (simp add: normalizeAxis_def fl_minus_7_40 clamp_cases fl_minus_17_100)
qed

lemma libm_hypot_3_7: "\<not> jgt (libm_hypot (Num 3) (Num (- 7))) (Num 40)"
proof -
  have "sqrt (3\<^sup>2 + (- 7)\<^sup>2) \<le> (8::real)"
    by (rule real_le_lsqrt) simp_all
  then have "\<bar>sqrt (3\<^sup>2 + (- 7)\<^sup>2)\<bar> \<le> (8::real)"
    by simp
  then obtain r where "fl (sqrt (3\<^sup>2 + (- 7)\<^sup>2)) = Num r" "\<bar>r\<bar> \<le> 2 * 8 + 1"
    using fl_finite [of "sqrt (3\<^sup>2 + (- 7)\<^sup>2)" 8] by auto
  then show ?thesis
    by (simp add: jgt_def)
qed

lemma joystick_inside_example:
  "map_sum id calls_J
     (onJoysickMove libm
        \<lparr> boundingClientRect =
            \<lparr> rect_left = 0, rect_top = 0, rect_width = 100, rect_height = 100 \<rparr>,
          thumbOffsetWidth = 40 \<rparr>
        \<lparr> pointerId = 7, clientX = 53, clientY = 43 \<rparr>
        ((JoysickController
            \<lparr> boundingClientRect =
                \<lparr> rect_left = 0, rect_top = 0, rect_width = 100, rect_height = 100 \<rparr>,
              thumbOffsetWidth = 40 \<rparr>
            \<lparr> rotate_JO = None, radius_JO = Some 100, onInputCallback_JO = Some ''input'' \<rparr>)
         \<lparr> isPressed_J := True \<rparr>))
   = Inr [(Supplied ''input'', Num (1261007895663739 / 18014398509481984),
           Num (- (6124895493223875 / 36028797018963968)))]"
  using libm_hypot_3_7
  by (simp add: onJoysickMove_def joystickThumbOffset_def pointerOffset_def libm_def Let_def
        JoysickController_def updateContainerRectangle_J_def jsub_def fl_numeral fl_neg_numeral
        normalizeAxis_3_of_40 normalizeAxis_minus_7_of_40)

text \<open>
  With \<^verbatim>\<open>rotate = 90\<close> the angle \<^verbatim>\<open>(-rotate * Math.PI) / 180\<close> is the double nearest to
  \<open>\<pi> / 2\<close>, negated.
\<close>

lemma angle_90_product:
  "jmul (Num (- 90)) (Num Math_PI) = Num (- (4974073419394997 / 17592186044416))"
proof -
  have "fl (- 90 * (884279719003555 / 2 ^ 48))
        = Num (2 powr (real_of_int 8 - 52) * real_of_int (- 4974073419394997))"
    by (rule fl_eval) (simp_all add: powr_minus_divide powr_numeral)
  then show ?thesis
    by (simp add: powr_minus_divide powr_numeral Math_PI_def)
qed

lemma angle_90_quotient:
  "jdiv (Num (- (4974073419394997 / 17592186044416))) (Num 180)
   = Num (- (884279719003555 / 562949953421312))"
proof -
  have "fl (- (4974073419394997 / 17592186044416) / 180)
        = Num (2 powr (real_of_int 0 - 52) * real_of_int (- 7074237752028440))"
    by (rule fl_eval) (simp_all add: powr_minus_divide powr_numeral)
  then show ?thesis
    by (simp add: powr_minus_divide powr_numeral)
qed

lemma toFixed2_zero:
  assumes "\<bar>q\<bar> \<le> 1 / 400"
  shows "toFixed2 (Math_max (Num (- 1)) (Math_min (Num 1) (Num q))) = Num 0"
proof -
  have v: "max (- 1) (min 1 q) = q"
    using assms by (simp add: max_def min_def; linarith)
  have "\<lfloor>(- q) * 100 + 1 / 2\<rfloor> = 0"
    using assms by (simp add: floor_eq_iff; linarith)
  moreover have "\<lfloor>q * 100 + 1 / 2\<rfloor> = 0"
    using assms by (simp add: floor_eq_iff; linarith)
  moreover have "\<not> 10 ^ 21 \<le> \<bar>q\<bar>"
    using assms by simp
  ultimately show ?thesis
    by (simp add: clamp_cases v fl_zero)
qed

lemma toFixed2_minus_one:
  assumes "q \<le> - (999 / 1000)"
  shows "toFixed2 (Math_max (Num (- 1)) (Math_min (Num 1) (Num q))) = Num (- 1)"
proof -
  define v where "v = max (- 1) (min 1 q)"
  have v: "- 1 \<le> v" "v \<le> - (999 / 1000)"
    using assms by (simp_all add: v_def)
  have "\<lfloor>(- v) * 100 + 1 / 2\<rfloor> = 100"
    using v by (simp add: floor_eq_iff; linarith)
  moreover have "\<not> 10 ^ 21 \<le> \<bar>v\<bar>" "v < 0"
    using v by simp_all
  moreover have "fl (- 1) = Num (- 1)"
    using fl_of_int [of "- 1"] by simp
  ultimately show ?thesis
    by (simp add: clamp_cases v_def [symmetric])
qed

text \<open>
  A joystick with \<^verbatim>\<open>rotate = 90\<close> and \<^verbatim>\<open>thumbMaxDistance = 40\<close>, moved while pressed to
  200 pixels right of the centre, reports \<open>(0, -1)\<close> on every library that is accurate
  to \<open>2\<^sup>-\<^sup>4\<^sup>0\<close> at the three arguments the handler passes.
\<close>

lemma joystick_rotated_90:
  assumes dist: "Math_hypot M (Num 200) (Num 0) = Num D" and D: "\<bar>D - 200\<bar> \<le> 200 / 2 ^ 40"
    and c: "Math_cos M (Num (- (884279719003555 / 562949953421312))) = Num C"
    and C: "\<bar>C - cos (- (884279719003555 / 562949953421312))\<bar> \<le> 1 / 2 ^ 40"
    and s: "Math_sin M (Num (- (884279719003555 / 562949953421312))) = Num S"
    and S: "\<bar>S - sin (- (884279719003555 / 562949953421312))\<bar> \<le> 1 / 2 ^ 40"
  shows "map_sum id calls_J
     (onJoysickMove M
        \<lparr> boundingClientRect =
            \<lparr> rect_left = 0, rect_top = 0, rect_width = 100, rect_height = 100 \<rparr>,
          thumbOffsetWidth = 40 \<rparr>
        \<lparr> pointerId = 7, clientX = 250, clientY = 50 \<rparr>
        ((JoysickController
            \<lparr> boundingClientRect =
                \<lparr> rect_left = 0, rect_top = 0, rect_width = 100, rect_height = 100 \<rparr>,
              thumbOffsetWidth = 40 \<rparr>
            \<lparr> rotate_JO = Some 90, radius_JO = Some 100, onInputCallback_JO = Some ''input'' \<rparr>)
         \<lparr> isPressed_J := True \<rparr>))
   = Inr [(Supplied ''input'', Num 0, Num (- 1))]"
proof -
  let ?R = "\<lparr> rect_left = 0, rect_top = 0, rect_width = 100, rect_height = 100 \<rparr>"
  let ?L = "\<lparr> boundingClientRect = ?R, thumbOffsetWidth = 40 \<rparr>"
  let ?E = "\<lparr> pointerId = 7, clientX = 250, clientY = 50 \<rparr>"
  let ?S = "(JoysickController ?L
            \<lparr> rotate_JO = Some 90, radius_JO = Some 100, onInputCallback_JO = Some ''input'' \<rparr>)
         \<lparr> isPressed_J := True \<rparr>"
  define A :: real where "A = - (884279719003555 / 562949953421312)"
  have pressed: "isPressed_J ?S"
    by (simp add: JoysickController_def updateContainerRectangle_J_def)
  have rect: "baseRect_J ?S = Some ?R"
    by (simp add: JoysickController_def updateContainerRectangle_J_def)
  have tmd: "thumbMaxDistance_J ?S = Num 40"
    by (simp add: JoysickController_def updateContainerRectangle_J_def jsub_def fl_numeral)
  have off: "pointerOffset ?R ?E = (Num 200, Num 0)"
    by (simp add: pointerOffset_def jsub_def fl_numeral fl_zero)
  have cosA: "\<bar>cos A\<bar> \<le> 1 / 500"
    unfolding A_def using cos_half_pi_double by simp
  have sinA: "sin A \<le> - (1 - 1 / 10 ^ 6)"
    unfolding A_def using sin_half_pi_double by simp
  have angle: "jdiv (jmul (Num (- 90)) (Num Math_PI)) (Num 180) = Num A"
    unfolding A_def by (simp only: angle_90_product angle_90_quotient)
  have rot: "if rotate_J ?S \<noteq> 0
              then jdiv (jmul (Num (- rotate_J ?S)) (Num Math_PI)) (Num 180) = Num A
                   \<and> Math_cos M (Num A) = Num C \<and> \<bar>C - cos A\<bar> \<le> 1 / 2 ^ 40
                   \<and> Math_sin M (Num A) = Num S \<and> \<bar>S - sin A\<bar> \<le> 1 / 2 ^ 40
              else A = 0"
    using angle c C s S unfolding A_def [symmetric]
    by (simp add: JoysickController_def updateContainerRectangle_J_def)
  have D': "\<bar>D - sqrt (200\<^sup>2 + 0\<^sup>2)\<bar> \<le> sqrt (200\<^sup>2 + 0\<^sup>2) / 2 ^ 40"
    using D by (simp add: sqrt_40000)
  have tD: "40 < D"
    using D by (simp del: keep_divide; linarith)
  obtain qx qy where
    calls: "map_sum id calls_J (onJoysickMove M ?L ?E ?S)
             = Inr (calls_J ?S @
                 [(onInputCallback_J ?S,
                   toFixed2 (Math_max (Num (- 1)) (Math_min (Num 1) (Num qx))),
                   toFixed2 (Math_max (Num (- 1)) (Math_min (Num 1) (Num qy))))])"
    and qx: "\<bar>qx - (200 * cos A - 0 * sin A) / sqrt (200\<^sup>2 + 0\<^sup>2)\<bar> \<le> 1 / 2 ^ 33"
    and qy: "\<bar>qy - (200 * sin A + 0 * cos A) / sqrt (200\<^sup>2 + 0\<^sup>2)\<bar> \<le> 1 / 2 ^ 33"
    using joystick_move_beyond [OF pressed rect off tmd dist _ _ _ tD D' rot, of ?L] by auto
  have close: "\<bar>qx - cos A\<bar> \<le> 1 / 2 ^ 33" "\<bar>qy - sin A\<bar> \<le> 1 / 2 ^ 33"
    using qx qy by (simp_all add: sqrt_40000 del: keep_divide)
  have "\<bar>qx\<bar> \<le> 1 / 400"
    using close(1) cosA by (simp del: keep_divide; linarith)
  moreover have "qy \<le> - (999 / 1000)"
    using close(2) sinA by (simp del: keep_divide; linarith)
  ultimately have "toFixed2 (Math_max (Num (- 1)) (Math_min (Num 1) (Num qx))) = Num 0"
    "toFixed2 (Math_max (Num (- 1)) (Math_min (Num 1) (Num qy))) = Num (- 1)"
    by (simp_all only: toFixed2_zero toFixed2_minus_one)
  then show ?thesis
    using calls by (simp add: JoysickController_def updateContainerRectangle_J_def)
qed

text \<open>
  C2 as stated fails for a rotated joystick: with \<^verbatim>\<open>rotate = 90\<close> and
  \<^verbatim>\<open>thumbMaxDistance = 40\<close>, a move while pressed to 200 pixels right of the centre
  reports \<open>(0, -1)\<close>, which is not the direction of \<open>(200, 0)\<close>.
\<close>

theorem joystick_rotated_direction_counterexample:
  "isPressed_J
     ((JoysickController
         \<lparr> boundingClientRect =
             \<lparr> rect_left = 0, rect_top = 0, rect_width = 100, rect_height = 100 \<rparr>,
           thumbOffsetWidth = 40 \<rparr>
         \<lparr> rotate_JO = Some 90, radius_JO = Some 100, onInputCallback_JO = Some ''input'' \<rparr>)
      \<lparr> isPressed_J := True \<rparr>)
   \<and> thumbMaxDistance_J
     ((JoysickController
         \<lparr> boundingClientRect =
             \<lparr> rect_left = 0, rect_top = 0, rect_width = 100, rect_height = 100 \<rparr>,
           thumbOffsetWidth = 40 \<rparr>
         \<lparr> rotate_JO = Some 90, radius_JO = Some 100, onInputCallback_JO = Some ''input'' \<rparr>)
      \<lparr> isPressed_J := True \<rparr>) = Num 40
   \<and> pointerOffset \<lparr> rect_left = 0, rect_top = 0, rect_width = 100, rect_height = 100 \<rparr>
       \<lparr> pointerId = 7, clientX = 250, clientY = 50 \<rparr> = (Num 200, Num 0)
   \<and> Math_hypot libm (Num 200) (Num 0) = Num 200
   \<and> map_sum id calls_J
     (onJoysickMove libm
        \<lparr> boundingClientRect =
            \<lparr> rect_left = 0, rect_top = 0, rect_width = 100, rect_height = 100 \<rparr>,
          thumbOffsetWidth = 40 \<rparr>
        \<lparr> pointerId = 7, clientX = 250, clientY = 50 \<rparr>
        ((JoysickController
            \<lparr> boundingClientRect =
                \<lparr> rect_left = 0, rect_top = 0, rect_width = 100, rect_height = 100 \<rparr>,
              thumbOffsetWidth = 40 \<rparr>
            \<lparr> rotate_JO = Some 90, radius_JO = Some 100, onInputCallback_JO = Some ''input'' \<rparr>)
         \<lparr> isPressed_J := True \<rparr>))
   = Inr [(Supplied ''input'', Num 0, Num (- 1))]"
proof -
  let ?R = "\<lparr> rect_left = 0, rect_top = 0, rect_width = 100, rect_height = 100 \<rparr>"
  let ?L = "\<lparr> boundingClientRect = ?R, thumbOffsetWidth = 40 \<rparr>"
  let ?E = "\<lparr> pointerId = 7, clientX = 250, clientY = 50 \<rparr>"
  let ?S = "(JoysickController ?L
            \<lparr> rotate_JO = Some 90, radius_JO = Some 100, onInputCallback_JO = Some ''input'' \<rparr>)
         \<lparr> isPressed_J := True \<rparr>"
  define A :: real where "A = - (884279719003555 / 562949953421312)"
  have pressed: "isPressed_J ?S"
    by (simp add: JoysickController_def updateContainerRectangle_J_def)
  have tmd: "thumbMaxDistance_J ?S = Num 40"
    by (simp add: JoysickController_def updateContainerRectangle_J_def jsub_def fl_numeral)
  have off: "pointerOffset ?R ?E = (Num 200, Num 0)"
    by (simp add: pointerOffset_def jsub_def fl_numeral fl_zero)
  have dist: "Math_hypot libm (Num 200) (Num 0) = Num 200"
    by (simp add: libm_def sqrt_40000 fl_numeral)
  have small: "\<bar>x\<bar> < 2 ^ 1023" if "\<bar>x\<bar> \<le> 1" for x :: real
  proof -
    have "(1::real) < 2 ^ 1023" by simp
    then show ?thesis using that by linarith
  qed
  obtain C where C: "fl (cos A) = Num C" "\<bar>C - cos A\<bar> \<le> \<bar>cos A\<bar> / 2 ^ 53 + 1 / 2 ^ 1075"
    using fl_error [OF small, of "cos A"] by auto
  obtain S where S: "fl (sin A) = Num S" "\<bar>S - sin A\<bar> \<le> \<bar>sin A\<bar> / 2 ^ 53 + 1 / 2 ^ 1075"
    using fl_error [OF small, of "sin A"] by auto
  have C': "\<bar>C - cos A\<bar> \<le> 1 / 2 ^ 40"
    using C(2) abs_cos_le_one [of A] by (simp del: keep_divide; linarith)
  have S': "\<bar>S - sin A\<bar> \<le> 1 / 2 ^ 40"
    using S(2) abs_sin_le_one [of A] by (simp del: keep_divide; linarith)
  have c: "Math_cos libm (Num A) = Num C" and s: "Math_sin libm (Num A) = Num S"
    using C(1) S(1) by (simp_all add: libm_def)
  have D: "\<bar>200 - 200\<bar> \<le> (200 :: real) / 2 ^ 40"
    by simp
  have "map_sum id calls_J (onJoysickMove libm ?L ?E ?S)
             = Inr [(Supplied ''input'', Num 0, Num (- 1))]"
    by (rule joystick_rotated_90 [OF dist D c [unfolded A_def] C' [unfolded A_def]
          s [unfolded A_def] S' [unfolded A_def]])
  then show ?thesis
    using pressed tmd off dist by simp
qed

subsection \<open>The cached rectangle during a move\<close>

text \<open>
  C4, as amended. A move of the d-pad or of the joystick returns the cached rectangle
  as it was (or throws when the control is pressed and no rectangle was ever cached)
  and does not depend on the layout at the time of the move. A move of the slider,
  while pressed, replaces the cached rectangle by the one the layout reports at that
  moment; while not pressed it leaves the cache alone.
\<close>

theorem move_handlers_and_cached_rectangle:
  "map_sum id baseRect_D (onDpadMove M lay e d)
     = (if isPressed_D d \<and> baseRect_D d = None then Inl TypeError else Inr (baseRect_D d))
   \<and> onDpadMove M lay e d = onDpadMove M lay' e d
   \<and> map_sum id baseRect_J (onJoysickMove M lay e j)
     = (if isPressed_J j \<and> baseRect_J j = None then Inl TypeError else Inr (baseRect_J j))
   \<and> onJoysickMove M lay e j = onJoysickMove M lay' e j
   \<and> map_sum id baseRect_S (onSliderMove lay e s)
     = Inr (if isPressed_S s then Some (boundingClientRect lay) else baseRect_S s)"
  by (simp add: onDpadMove_def onJoysickMove_def onSliderMove_def Let_def
        updateContainerRectangle_S_def invoke_S_def updateUI_def
        split: option.splits)

text \<open>
  C4 as stated fails for the slider: pressed with the rectangle at top 0, then moved
  after the layout has shifted to top 30, its cached rectangle is the new one.
\<close>

theorem slider_move_rereads_rectangle_counterexample:
  "isPressed_S (onSliderDown
       \<lparr> boundingClientRect =
           \<lparr> rect_left = 0, rect_top = 0, rect_width = 20, rect_height = 200 \<rparr>,
         thumbOffsetWidth = 0 \<rparr>
       \<lparr> pointerId = 7, clientX = 10, clientY = 120 \<rparr>
       (RetrackableSlider
          \<lparr> direction_SO = None, onSlideCallback_SO = Some ''slide'',
            onReleaseCallback_SO = None \<rparr>))
   \<and> baseRect_S (onSliderDown
       \<lparr> boundingClientRect =
           \<lparr> rect_left = 0, rect_top = 0, rect_width = 20, rect_height = 200 \<rparr>,
         thumbOffsetWidth = 0 \<rparr>
       \<lparr> pointerId = 7, clientX = 10, clientY = 120 \<rparr>
       (RetrackableSlider
          \<lparr> direction_SO = None, onSlideCallback_SO = Some ''slide'',
            onReleaseCallback_SO = None \<rparr>))
     = Some \<lparr> rect_left = 0, rect_top = 0, rect_width = 20, rect_height = 200 \<rparr>
   \<and> map_sum id baseRect_S
       (onSliderMove
         \<lparr> boundingClientRect =
             \<lparr> rect_left = 0, rect_top = 30, rect_width = 20, rect_height = 200 \<rparr>,
           thumbOffsetWidth = 0 \<rparr>
         \<lparr> pointerId = 7, clientX = 10, clientY = 120 \<rparr>
         (onSliderDown
           \<lparr> boundingClientRect =
               \<lparr> rect_left = 0, rect_top = 0, rect_width = 20, rect_height = 200 \<rparr>,
             thumbOffsetWidth = 0 \<rparr>
           \<lparr> pointerId = 7, clientX = 10, clientY = 120 \<rparr>
           (RetrackableSlider
              \<lparr> direction_SO = None, onSlideCallback_SO = Some ''slide'',
                onReleaseCallback_SO = None \<rparr>)))
     = Inr (Some \<lparr> rect_left = 0, rect_top = 30, rect_width = 20, rect_height = 200 \<rparr>)"
  by (simp add: onSliderMove_def onSliderDown_def RetrackableSlider_def Let_def
        updateContainerRectangle_S_def invoke_S_def updateUI_def)

end
